theory Spec2Isabelle
  imports Main "HOL-Library.Log_Nat" "HOL-Library.Multiset"
begin

section \<open>Python values\<close>

subsection \<open>Floats\<close>

text \<open>
  A Python \<open>float\<close> is an IEEE-754 binary64 number. A finite float is modelled by the
  rational number it denotes, and every arithmetic operation of the source is the exact
  operation followed by \<open>fl\<close>, rounding to the nearest binary64 number, ties to the even
  significand. Infinities, NaN and overflow (magnitudes from \<open>2 ^ 1024\<close>) are outside
  the model.
\<close>

definition round_half_even :: "rat \<Rightarrow> int" where
  "round_half_even x =
     (let f = \<lfloor>x\<rfloor>; d = x - of_int f
      in if d < 1 / 2 then f else if 1 / 2 < d then f + 1 else if even f then f else f + 1)"

text \<open>Rounding \<open>y \<ge> 0\<close> to an integer of at most 53 significant bits: the last
  \<open>quantum_exp y\<close> bits of the result are zero.\<close>

definition quantum_exp :: "rat \<Rightarrow> nat" where
  "quantum_exp y = nat (bitlen \<lfloor>y\<rfloor> - 53)"

definition round_sig :: "rat \<Rightarrow> rat" where
  "round_sig y = of_int (round_half_even (y / 2 ^ quantum_exp y)) * 2 ^ quantum_exp y"

text \<open>The least positive binary64 number is \<open>1 / 2 ^ emin\<close>; every binary64 number is
  an integer multiple of it, so the subnormal numbers are covered.\<close>

definition emin :: nat where
  "emin = 1074"

definition fl_pos :: "rat \<Rightarrow> rat" where
  "fl_pos x = round_sig (x * 2 ^ emin) / 2 ^ emin"

definition fl :: "rat \<Rightarrow> rat" where
  "fl x = (if x < 0 then - fl_pos (- x) else fl_pos x)"

definition fadd :: "rat \<Rightarrow> rat \<Rightarrow> rat" where
  "fadd x y = fl (x + y)"

definition fsub :: "rat \<Rightarrow> rat \<Rightarrow> rat" where
  "fsub x y = fl (x - y)"

definition fmul :: "rat \<Rightarrow> rat \<Rightarrow> rat" where
  "fmul x y = fl (x * y)"

definition fdiv :: "rat \<Rightarrow> rat \<Rightarrow> rat" where
  "fdiv x y = fl (x / y)"

text \<open>\<open>float(n)\<close> for an integer \<open>n\<close>, also the conversion \<open>/\<close> and \<open>*\<close> apply to an
  integer operand.\<close>

definition float_of_int :: "int \<Rightarrow> rat" where
  "float_of_int n = fl (of_int n)"

text \<open>\<open>round(x)\<close> on a float: the nearest integer, ties to even.\<close>

definition py_round :: "rat \<Rightarrow> int" where
  "py_round x = round_half_even x"

text \<open>\<open>int(x)\<close> on a float truncates towards zero.\<close>

definition py_int :: "rat \<Rightarrow> int" where
  "py_int x = (if x < 0 then - \<lfloor>- x\<rfloor> else \<lfloor>x\<rfloor>)"

subsection \<open>Strings\<close>

text \<open>
  A \<open>str\<close> is a \<open>string\<close>; a character is a code point below 256. Among these,
  \<open>str.isdigit\<close> holds for the ten decimal digits and for the superscripts two, three
  and one (178, 179 and 185), while \<open>\d\<close> of a regular expression matches the ten
  decimal digits only. \<open>str.isspace\<close>, \<open>str.strip\<close> and \<open>\s\<close> agree: white
  space is 9 to 13, 28 to 32, the next-line character 133 and the no-break space 160.
\<close>

definition isdigit :: "char \<Rightarrow> bool" where
  "isdigit c = (of_char c \<in> {48, 49, 50, 51, 52, 53, 54, 55, 56, 57, 178, 179, 185 :: nat})"

definition is_decimal :: "char \<Rightarrow> bool" where
  "is_decimal c = (c \<in> set ''0123456789'')"

definition isspace :: "char \<Rightarrow> bool" where
  "isspace c = (of_char c \<in> {9, 10, 11, 12, 13, 28, 29, 30, 31, 32, 133, 160 :: nat})"

definition strip :: "string \<Rightarrow> string" where
  "strip s = rev (dropWhile isspace (rev (dropWhile isspace s)))"

definition is_linebreak :: "char \<Rightarrow> bool" where
  "is_linebreak c = (of_char c \<in> {10, 11, 12, 13, 28, 29, 30, 133 :: nat})"

text \<open>\<open>str.splitlines()\<close>: the line boundaries are dropped, \<open>\r\n\<close> is one boundary,
  and a boundary at the very end opens no further line.\<close>

fun splitlines :: "string \<Rightarrow> string list" where
  "splitlines [] = []"
| "splitlines (c # cs) =
     (if is_linebreak c then
        (case cs of
           d # ds \<Rightarrow>
             if of_char c = (13 :: nat) \<and> of_char d = (10 :: nat)
             then [] # splitlines ds else [] # splitlines cs
         | [] \<Rightarrow> [[]])
      else (case splitlines cs of [] \<Rightarrow> [[c]] | l # ls \<Rightarrow> (c # l) # ls))"

text \<open>\<open>s.split(sep, 1)\<close> for a one-character separator.\<close>

definition split_once :: "char \<Rightarrow> string \<Rightarrow> string list" where
  "split_once sep s =
     (if sep \<in> set s then [takeWhile (\<lambda>c. c \<noteq> sep) s, tl (dropWhile (\<lambda>c. c \<noteq> sep) s)]
      else [s])"

text \<open>\<open>"\n".join(lines)\<close>.\<close>

fun join_lines :: "string list \<Rightarrow> string" where
  "join_lines [] = []"
| "join_lines [l] = l"
| "join_lines (l # ls) = l @ CHR 0x0A # join_lines ls"

text \<open>\<open>str(n)\<close> for an integer, and the format specifications \<open>02d\<close> and \<open>03d\<close>: a
  minimum width, filled with zeros after the sign.\<close>

definition digit_char :: "nat \<Rightarrow> char" where
  "digit_char d = ''0123456789'' ! d"

fun str_nat :: "nat \<Rightarrow> string" where
  "str_nat n = (if n < 10 then [digit_char n] else str_nat (n div 10) @ [digit_char (n mod 10)])"

definition str_int :: "int \<Rightarrow> string" where
  "str_int i = (if i < 0 then CHR ''-'' # str_nat (nat (- i)) else str_nat (nat i))"

definition zero_pad :: "nat \<Rightarrow> int \<Rightarrow> string" where
  "zero_pad w i =
     (if i < 0
      then CHR ''-'' # replicate (w - 1 - length (str_nat (nat (- i)))) CHR ''0'' @ str_nat (nat (- i))
      else replicate (w - length (str_nat (nat i))) CHR ''0'' @ str_nat (nat i))"

section \<open>transcription.py\<close>

record SubtitleSegment =
  index :: int
  start :: rat
  seg_end :: rat
  seg_text :: string
  translated_text :: "string option"
  actual_start :: "rat option"
  actual_end :: "rat option"

text \<open>Truth value of an optional string: \<open>None\<close> and the empty string are false.\<close>

definition truthy :: "string option \<Rightarrow> bool" where
  "truthy t = (case t of None \<Rightarrow> False | Some s \<Rightarrow> s \<noteq> [])"

definition format_timestamp :: "rat \<Rightarrow> string" where
  "format_timestamp seconds =
     (let millis = py_round (fmul seconds 1000);
          hours = millis div 3600000; rem = millis mod 3600000;
          minutes = rem div 60000; rem = rem mod 60000;
          secs = rem div 1000; millis = rem mod 1000
      in zero_pad 2 hours @ '':'' @ zero_pad 2 minutes @ '':'' @ zero_pad 2 secs @ '','' @
         zero_pad 3 millis)"

text \<open>The text \<open>write_srt\<close> selects for a segment.\<close>

definition selected_text :: "bool \<Rightarrow> SubtitleSegment \<Rightarrow> string" where
  "selected_text use_translated seg =
     (if use_translated \<and> truthy (translated_text seg) then the (translated_text seg)
      else seg_text seg)"

text \<open>The four lines \<open>write_srt\<close> appends for a segment it does not skip: one
  subtitle block.\<close>

definition srt_block :: "bool \<Rightarrow> bool \<Rightarrow> SubtitleSegment \<Rightarrow> string list" where
  "srt_block use_translated use_actual_timing seg =
     [str_int (index seg),
      (if use_actual_timing \<and> actual_start seg \<noteq> None \<and> actual_end seg \<noteq> None
       then format_timestamp (the (actual_start seg)) @ '' --> '' @
            format_timestamp (the (actual_end seg))
       else format_timestamp (start seg) @ '' --> '' @ format_timestamp (seg_end seg)),
      strip (selected_text use_translated seg),
      []]"

text \<open>One pass of the loop of \<open>write_srt\<close>: a segment whose selected text is
  empty is skipped.\<close>

definition srt_entry :: "bool \<Rightarrow> bool \<Rightarrow> SubtitleSegment \<Rightarrow> string list" where
  "srt_entry use_translated use_actual_timing seg =
     (if selected_text use_translated seg = [] then []
      else srt_block use_translated use_actual_timing seg)"

fun srt_lines :: "bool \<Rightarrow> bool \<Rightarrow> SubtitleSegment list \<Rightarrow> string list" where
  "srt_lines use_translated use_actual_timing [] = []"
| "srt_lines use_translated use_actual_timing (seg # segments) =
     srt_entry use_translated use_actual_timing seg @
     srt_lines use_translated use_actual_timing segments"

text \<open>The files written so far, by path. \<open>write_srt\<close> opens the path for writing, so
  the new content replaces the old.\<close>

type_synonym files = "string \<rightharpoonup> string"

definition write_srt :: "SubtitleSegment list \<Rightarrow> string \<Rightarrow> bool \<Rightarrow> bool \<Rightarrow> files \<Rightarrow> files" where
  "write_srt segments path use_translated use_actual_timing fs =
     fs(path \<mapsto> join_lines (srt_lines use_translated use_actual_timing segments))"

section \<open>gemini_client.py\<close>

definition starts_with_digit :: "string \<Rightarrow> bool" where
  "starts_with_digit s = (case s of [] \<Rightarrow> False | c # _ \<Rightarrow> isdigit c)"

text \<open>The primary pass on one stripped, non-empty line.\<close>

definition parse_numbered_line :: "string \<Rightarrow> string" where
  "parse_numbered_line raw_line =
     (if CHR ''.'' \<in> set raw_line \<and> starts_with_digit raw_line then
        (let parts = split_once CHR ''.'' raw_line
         in if length parts = 2 then strip (parts ! 1) else raw_line)
      else if CHR '')'' \<in> set raw_line \<and> starts_with_digit raw_line then
        (let parts = split_once CHR '')'' raw_line
         in if length parts = 2 then strip (parts ! 1) else raw_line)
      else raw_line)"

fun parse_primary :: "string list \<Rightarrow> string list" where
  "parse_primary [] = []"
| "parse_primary (l # ls) =
     (let raw_line = strip l
      in if raw_line = [] then parse_primary ls
         else parse_numbered_line raw_line # parse_primary ls)"

text \<open>
  \<open>re.match(r'^\d+[\.\)]\s*(.+)', line)\<close>, giving group 1 of a match. The dot matches
  every character but the newline; when nothing but white space follows the marker,
  \<open>\s*\<close> gives back its last character that is no newline.
\<close>

definition match_numbered :: "string \<Rightarrow> string option" where
  "match_numbered line =
     (let digits = takeWhile is_decimal line; after_digits = dropWhile is_decimal line
      in if digits = [] then None
         else (case after_digits of
                 [] \<Rightarrow> None
               | m # after \<Rightarrow>
                   if m = CHR ''.'' \<or> m = CHR '')'' then
                     (let rest = dropWhile isspace after
                      in if rest \<noteq> [] then Some (takeWhile (\<lambda>c. c \<noteq> CHR 0x0A) rest)
                         else (case rev (filter (\<lambda>c. c \<noteq> CHR 0x0A) after) of
                                 [] \<Rightarrow> None
                               | c # _ \<Rightarrow> Some [c]))
                   else None))"

text \<open>The lenient pass over the lines of the response.\<close>

fun parse_lenient :: "string list \<Rightarrow> string list" where
  "parse_lenient [] = []"
| "parse_lenient (l # ls) =
     (let line = strip l
      in if line \<noteq> [] \<and> \<not> starts_with_digit line then parse_lenient ls
         else (case match_numbered line of
                 Some g \<Rightarrow> strip g # parse_lenient ls
               | None \<Rightarrow>
                   if line \<noteq> [] \<and> \<not> list_ex (\<lambda>c. c \<in> set line) ''0123456789''
                   then line # parse_lenient ls
                   else parse_lenient ls))"

text \<open>\<open>translate_lines\<close>, from the text of the backend's response on.\<close>

definition translate_lines :: "string list \<Rightarrow> string \<Rightarrow> string list" where
  "translate_lines lines response_text =
     (if lines = [] then []
      else
        (let text = strip response_text;
             translated = parse_primary (splitlines text)
         in if length translated \<noteq> length lines then
              (let fallback_translated = parse_lenient (splitlines text)
               in if length fallback_translated = length lines then fallback_translated
                  else (let kept = filter (\<lambda>t. t \<noteq> []) translated
                        in if kept \<noteq> [] then kept else splitlines text))
            else translated))"

section \<open>pipeline.py: the translation stage\<close>

text \<open>\<open>for seg, translated in zip(segments, translated_lines): seg.translated_text =
  translated\<close>, giving the segment list after the loop.\<close>

fun assign_translations :: "SubtitleSegment list \<Rightarrow> string list \<Rightarrow> SubtitleSegment list" where
  "assign_translations (seg # segments) (translated # translated_lines) =
     seg\<lparr>translated_text := Some translated\<rparr> # assign_translations segments translated_lines"
| "assign_translations segments [] = segments"
| "assign_translations [] translated_lines = []"

definition translation_stage :: "string \<Rightarrow> SubtitleSegment list \<Rightarrow> SubtitleSegment list" where
  "translation_stage response_text segments =
     assign_translations segments (translate_lines (map seg_text segments) response_text)"

section \<open>pydub.AudioSegment\<close>

text \<open>
  The audio library is not part of the repository. An \<open>AudioSegment\<close> is modelled by
  what decides its duration: the number of frames of its raw data and its frame rate
  (positive for every decoded clip). Sample values, channels and sample width are left
  out; no operation below changes a frame count through them.
\<close>

record AudioSegment =
  frame_count :: nat
  frame_rate :: nat

text \<open>\<open>len(seg)\<close>, in milliseconds:
  \<open>round(1000 * (self.frame_count() / self.frame_rate))\<close>.\<close>

definition len_ms :: "AudioSegment \<Rightarrow> int" where
  "len_ms seg =
     py_round (fmul 1000 (fdiv (float_of_int (int (frame_count seg)))
                               (float_of_int (int (frame_rate seg)))))"

text \<open>
  The number of frames \<open>audioop.ratecv\<close> writes for \<open>n\<close> input frames: its counter
  starts at \<open>- outrate\<close>, gains \<open>outrate\<close> with every frame read and loses \<open>inrate\<close>
  with every frame written, and a frame is written whenever the counter is not negative.
\<close>

definition ratecv_frames :: "nat \<Rightarrow> nat \<Rightarrow> nat \<Rightarrow> nat" where
  "ratecv_frames n inrate outrate = (if n = 0 then 0 else (n - 1) * outrate div inrate + 1)"

text \<open>\<open>seg.set_frame_rate(rate)\<close>: the segment itself when the rate is its own,
  otherwise the resampled data at the new rate.\<close>

definition set_frame_rate :: "AudioSegment \<Rightarrow> nat \<Rightarrow> AudioSegment" where
  "set_frame_rate seg rate =
     (if rate = frame_rate seg then seg
      else \<lparr>frame_count = ratecv_frames (frame_count seg) (frame_rate seg) rate,
            frame_rate = rate\<rparr>)"

text \<open>\<open>seg1 + seg2\<close>, that is \<open>seg1.append(seg2, crossfade=0)\<close>: both are brought to
  the higher frame rate, then the data are joined.\<close>

definition append_audio :: "AudioSegment \<Rightarrow> AudioSegment \<Rightarrow> AudioSegment" where
  "append_audio a b =
     (let rate = max (frame_rate a) (frame_rate b);
          seg1 = set_frame_rate a rate;
          seg2 = set_frame_rate b rate
      in seg1\<lparr>frame_count := frame_count seg1 + frame_count seg2\<rparr>)"

text \<open>\<open>AudioSegment.silent(duration)\<close>, at its default frame rate.\<close>

definition silent :: "int \<Rightarrow> AudioSegment" where
  "silent duration =
     \<lparr>frame_count = nat (py_int (fmul 11025 (fdiv (float_of_int duration) 1000))),
      frame_rate = 11025\<rparr>"

section \<open>tts.py\<close>

definition time_stretch_to_duration :: "AudioSegment \<Rightarrow> int \<Rightarrow> AudioSegment" where
  "time_stretch_to_duration piece target_ms =
     (if target_ms \<le> 0 \<or> len_ms piece = 0 then piece
      else
        (let ratio = fdiv (float_of_int (len_ms piece)) (float_of_int target_ms)
         in if \<bar>fsub ratio 1\<bar> < fl (5 / 100) then piece
            else
              (let max_change = fl (25 / 100);
                   ratio = (if fadd 1 max_change < ratio then fadd 1 max_change
                            else if ratio < fsub 1 max_change then fsub 1 max_change
                            else ratio);
                   new_frame_rate = py_int (fmul (float_of_int (int (frame_rate piece))) ratio)
               in if new_frame_rate \<le> 0 then piece
                  else set_frame_rate (piece\<lparr>frame_rate := nat new_frame_rate\<rparr>)
                         (frame_rate piece))))"

text \<open>
  The loop of \<open>synthesize_translated_audio\<close> over the sorted pieces, from the cursor
  \<open>current_pos_ms\<close> on. It gives, in order, each segment with its \<open>actual_start\<close> and
  \<open>actual_end\<close> written, next to the clip appended for it.
\<close>

fun arrange :: "int \<Rightarrow> (SubtitleSegment \<times> AudioSegment) list \<Rightarrow>
    (SubtitleSegment \<times> AudioSegment) list" where
  "arrange current_pos_ms [] = []"
| "arrange current_pos_ms ((seg, piece) # pieces) =
     (let seg_duration_ms = py_int (fmul (fsub (seg_end seg) (start seg)) 1000);
          adjusted = (if 0 < seg_duration_ms then time_stretch_to_duration piece seg_duration_ms
                      else piece);
          actual_start_seconds = fdiv (float_of_int current_pos_ms) 1000;
          actual_duration_seconds = fdiv (float_of_int (len_ms adjusted)) 1000;
          actual_end_seconds = fadd actual_start_seconds actual_duration_seconds
      in (seg\<lparr>actual_start := Some actual_start_seconds,
               actual_end := Some actual_end_seconds\<rparr>, adjusted)
         # arrange (current_pos_ms + len_ms adjusted) pieces)"

text \<open>\<open>sum(audio_segments)\<close> when there is a clip, the empty silent track otherwise.\<close>

definition combine :: "AudioSegment list \<Rightarrow> AudioSegment" where
  "combine audio_segments =
     (case audio_segments of
        [] \<Rightarrow> silent 0
      | a # as \<Rightarrow> foldl append_audio a as)"

text \<open>
  The second half of \<open>synthesize_translated_audio\<close>, from the collected pieces on: the
  sequenced segments in the order of the track, the combined track, and the total duration
  returned.
\<close>

definition assemble :: "(SubtitleSegment \<times> AudioSegment) list \<Rightarrow>
    SubtitleSegment list \<times> AudioSegment \<times> rat" where
  "assemble pieces =
     (let pieces_sorted = sort_key (\<lambda>sp. start (fst sp)) pieces;
          arranged = arrange 0 pieces_sorted;
          combined = combine (map snd arranged);
          actual_total_duration_seconds = fdiv (float_of_int (len_ms combined)) 1000
      in (map fst arranged, combined, actual_total_duration_seconds))"


section \<open>Example data\<close>

definition seg_hello :: SubtitleSegment where
  "seg_hello = \<lparr>index = 1, start = 0, seg_end = 2, seg_text = ''Hello'', translated_text = None,
                actual_start = None, actual_end = None\<rparr>"

definition seg_world :: SubtitleSegment where
  "seg_world = \<lparr>index = 2, start = 2, seg_end = 5, seg_text = ''World'', translated_text = None,
                actual_start = None, actual_end = None\<rparr>"

text \<open>A response with a line that has no number: \<open>1. Hola\<close>, \<open>Mundo\<close>,
  \<open>Note 2 self\<close>.\<close>

definition response_unnumbered :: string where
  "response_unnumbered = ''1. Hola'' @ [CHR 0x0A] @ ''Mundo'' @ [CHR 0x0A] @ ''Note 2 self''"

text \<open>Pieces at 24000 frames a second. Three clips of 1000, 1930 and 1000
  milliseconds for segments of 1, 2 and 1 seconds, and a segment that starts with the first
  one.\<close>

definition clip_a :: AudioSegment where
  "clip_a = \<lparr>frame_count = 24010, frame_rate = 24000\<rparr>"

definition clip_b :: AudioSegment where
  "clip_b = \<lparr>frame_count = 46330, frame_rate = 24000\<rparr>"

definition clip_c :: AudioSegment where
  "clip_c = \<lparr>frame_count = 24000, frame_rate = 24000\<rparr>"

definition seg_a :: SubtitleSegment where
  "seg_a = \<lparr>index = 1, start = 0, seg_end = 1, seg_text = ''a'', translated_text = Some ''A'',
            actual_start = None, actual_end = None\<rparr>"

definition seg_b :: SubtitleSegment where
  "seg_b = \<lparr>index = 2, start = 1, seg_end = 3, seg_text = ''b'', translated_text = Some ''B'',
            actual_start = None, actual_end = None\<rparr>"

definition seg_c :: SubtitleSegment where
  "seg_c = \<lparr>index = 3, start = 3, seg_end = 4, seg_text = ''c'', translated_text = Some ''C'',
            actual_start = None, actual_end = None\<rparr>"

definition seg_tie :: SubtitleSegment where
  "seg_tie = \<lparr>index = 4, start = 0, seg_end = 2, seg_text = ''d'', translated_text = Some ''D'',
            actual_start = None, actual_end = None\<rparr>"

text \<open>Clips of 2500, 2000, 1200 and 2503 milliseconds, and the segments of the
  scenario, from 0 to 2, from 2 to 5 and from 5 to 6 seconds.\<close>

definition clip_2500 :: AudioSegment where
  "clip_2500 = \<lparr>frame_count = 60000, frame_rate = 24000\<rparr>"

definition clip_2000 :: AudioSegment where
  "clip_2000 = \<lparr>frame_count = 48000, frame_rate = 24000\<rparr>"

definition clip_1200 :: AudioSegment where
  "clip_1200 = \<lparr>frame_count = 28800, frame_rate = 24000\<rparr>"

definition clip_2503 :: AudioSegment where
  "clip_2503 = \<lparr>frame_count = 60072, frame_rate = 24000\<rparr>"

definition seg_s1 :: SubtitleSegment where
  "seg_s1 = \<lparr>index = 1, start = 0, seg_end = 2, seg_text = ''one'', translated_text = Some ''mot'',
            actual_start = None, actual_end = None\<rparr>"

definition seg_s2 :: SubtitleSegment where
  "seg_s2 = \<lparr>index = 2, start = 2, seg_end = 5, seg_text = ''two'', translated_text = Some ''hai'',
            actual_start = None, actual_end = None\<rparr>"

definition seg_s3 :: SubtitleSegment where
  "seg_s3 = \<lparr>index = 3, start = 5, seg_end = 6, seg_text = ''three'', translated_text = Some ''ba'',
            actual_start = None, actual_end = None\<rparr>"





text \<open>Segments for the subtitle writer: one with a translation, one whose texts are
  empty, one without a translation, and one that carries achieved times.\<close>

definition seg_w1 :: SubtitleSegment where
  "seg_w1 = \<lparr>index = 1, start = 0, seg_end = 2, seg_text = ''Hello'',
              translated_text = Some ''Xin chao'', actual_start = None, actual_end = None\<rparr>"

definition seg_w2 :: SubtitleSegment where
  "seg_w2 = \<lparr>index = 2, start = 2, seg_end = 3, seg_text = '''',
              translated_text = Some '''', actual_start = None, actual_end = None\<rparr>"

definition seg_w3 :: SubtitleSegment where
  "seg_w3 = \<lparr>index = 3, start = 3, seg_end = 5, seg_text = ''World'',
              translated_text = None, actual_start = None, actual_end = None\<rparr>"

definition seg_synced :: SubtitleSegment where
  "seg_synced = \<lparr>index = 1, start = 0, seg_end = 2, seg_text = ''Hello'',
              translated_text = None, actual_start = Some 0, actual_end = Some (5 / 2)\<rparr>"


section \<open>Evaluating floats\<close>

declare str_nat.simps [simp del]

lemma bitlen_eqI:
  assumes "0 < w" "2 ^ (w - 1) \<le> x" "x < 2 ^ w"
  shows "bitlen x = int w"
proof (rule antisym)
  show "bitlen x \<le> int w" using assms by (simp add: bitlen_le_iff_power)
  show "int w \<le> bitlen x" using assms by (simp add: bitlen_ge_iff_power)
qed

lemma floor_divide_numeral_rat [simp]:
  "\<lfloor>numeral a / numeral b :: rat\<rfloor> = numeral a div numeral b"
  by (metis floor_divide_of_int_eq of_int_numeral)

text \<open>Rounding a number whose binary exponent is known: \<open>j\<close> scales \<open>x\<close> into
  \<open>[2 ^ 52, 2 ^ 53)\<close>.\<close>

lemma fl_pos_normal:
  assumes j: "j \<le> 1074" and lo: "2 ^ 52 \<le> x * 2 ^ j" and hi: "x * 2 ^ j < 2 ^ 53"
  shows "fl_pos x = of_int (round_half_even (x * 2 ^ j)) / 2 ^ j"
proof -
  define d where "d = emin - j"
  have jd: "j + d = emin" using j by (simp add: d_def emin_def)
  have e: "(2::rat) ^ emin = 2 ^ j * 2 ^ d"
    unfolding power_add[symmetric] jd ..
  let ?n = "\<lfloor>x * 2 ^ emin\<rfloor>"
  have x1: "x * 2 ^ emin = (x * 2 ^ j) * 2 ^ d" by (simp only: e mult.assoc)
  have "of_int (2 ^ (52 + d)) \<le> x * 2 ^ emin"
    unfolding x1 using lo by (simp add: power_add)
  then have lo': "2 ^ (52 + d) \<le> ?n" by (simp only: le_floor_iff)
  have "x * 2 ^ emin < of_int (2 ^ (53 + d))"
    unfolding x1 using hi by (simp add: power_add)
  then have hi': "?n < 2 ^ (53 + d)" by (simp only: floor_less_iff)
  have "bitlen ?n = int (53 + d)"
    by (rule bitlen_eqI) (use lo' hi' in simp_all)
  then have k: "quantum_exp (x * 2 ^ emin) = d" by (simp add: quantum_exp_def)
  have a: "x * 2 ^ emin / 2 ^ d = x * 2 ^ j" unfolding x1 by simp
  have "y * 2 ^ d / 2 ^ emin = y / 2 ^ j" for y :: rat unfolding e by simp
  then show ?thesis
    unfolding fl_pos_def round_sig_def k a by blast
qed

lemma fl_zero [simp]: "fl 0 = 0"
  by (simp add: fl_def fl_pos_def round_sig_def quantum_exp_def round_half_even_def)

lemma round_half_even_nonneg: "0 \<le> x \<Longrightarrow> 0 \<le> round_half_even x"
  by (simp add: round_half_even_def Let_def)

lemma fl_nonneg: "0 \<le> x \<Longrightarrow> 0 \<le> fl x"
  by (simp add: fl_def fl_pos_def round_sig_def round_half_even_nonneg)

section \<open>Rounding is monotone and idempotent\<close>

lemma round_half_even_of_int [simp]: "round_half_even (of_int n) = n"
  by (simp add: round_half_even_def)

lemma round_half_even_lower: "\<lfloor>x\<rfloor> \<le> round_half_even x"
  by (simp add: round_half_even_def Let_def)

lemma round_half_even_upper: "round_half_even x \<le> \<lfloor>x\<rfloor> + 1"
  by (simp add: round_half_even_def Let_def)

lemma round_half_even_mono:
  assumes "x \<le> y"
  shows "round_half_even x \<le> round_half_even y"
proof (cases "\<lfloor>x\<rfloor> = \<lfloor>y\<rfloor>")
  case True
  with assms show ?thesis
    by (auto simp: round_half_even_def Let_def)
next
  case False
  with assms have "\<lfloor>x\<rfloor> + 1 \<le> \<lfloor>y\<rfloor>"
    using floor_mono [OF assms] by linarith
  with round_half_even_upper [of x] round_half_even_lower [of y] show ?thesis
    by linarith
qed

lemma round_half_even_le: "x \<le> of_int n \<Longrightarrow> round_half_even x \<le> n"
  using round_half_even_mono [of x "of_int n"] by simp

lemma round_half_even_ge: "of_int n \<le> x \<Longrightarrow> n \<le> round_half_even x"
  using round_half_even_mono [of "of_int n" x] by simp

lemma quantum_exp_mono: "y \<le> y' \<Longrightarrow> quantum_exp y \<le> quantum_exp y'"
  unfolding quantum_exp_def bitlen_def
  by (intro nat_mono diff_right_mono) (simp add: floorlog_mono floor_mono nat_mono)

lemma quantum_range:
  assumes "0 \<le> y"
  shows "y / 2 ^ quantum_exp y < 2 ^ 53"
    and "0 < quantum_exp y \<Longrightarrow> 2 ^ 52 \<le> y / 2 ^ quantum_exp y"
proof -
  define n where "n = \<lfloor>y\<rfloor>"
  define k where "k = quantum_exp y"
  have n0: "0 \<le> n" using assms by (simp add: n_def)
  have kb: "k = nat (bitlen n - 53)" by (simp add: k_def quantum_exp_def n_def)
  have up: "n < 2 ^ (53 + k)"
  proof -
    have "bitlen n \<le> int (53 + k)" using kb by simp
    then have "n < 2 ^ nat (int (53 + k))" by (simp only: bitlen_le_iff_power)
    then show ?thesis by (simp only: nat_int)
  qed
  then have "y < of_int (2 ^ (53 + k))" unfolding n_def by (simp only: floor_less_iff)
  then have "y < 2 ^ 53 * 2 ^ k" by (simp add: power_add)
  then show "y / 2 ^ quantum_exp y < 2 ^ 53"
    unfolding k_def [symmetric] by (simp add: pos_divide_less_eq)
  assume "0 < quantum_exp y"
  then have kpos: "0 < k" by (simp add: k_def)
  then have "int (53 + k) \<le> bitlen n" using kb by simp
  then have "int (53 + k) \<le> 0 \<or> 2 ^ (nat (int (53 + k)) - 1) \<le> n"
    by (simp only: bitlen_ge_iff_power)
  then have "2 ^ (52 + k) \<le> n" by (simp only: nat_int) simp
  then have "of_int (2 ^ (52 + k)) \<le> y" unfolding n_def by (simp only: le_floor_iff)
  then have "2 ^ 52 * 2 ^ k \<le> y" by (simp add: power_add)
  then show "2 ^ 52 \<le> y / 2 ^ quantum_exp y"
    unfolding k_def [symmetric] by (simp add: pos_le_divide_eq)
qed

lemma round_sig_mono:
  assumes "0 \<le> y" "y \<le> y'"
  shows "round_sig y \<le> round_sig y'"
proof -
  define k where "k = quantum_exp y"
  define k' where "k' = quantum_exp y'"
  have kk: "k \<le> k'" using assms by (simp add: k_def k'_def quantum_exp_mono)
  show ?thesis
  proof (cases "k = k'")
    case True
    have "y / 2 ^ k \<le> y' / 2 ^ k" using assms by (simp add: divide_right_mono)
    then have "round_half_even (y / 2 ^ k) \<le> round_half_even (y' / 2 ^ k)"
      by (rule round_half_even_mono)
    then show ?thesis
      unfolding round_sig_def k_def [symmetric] k'_def [symmetric] True [symmetric]
      by simp
  next
    case False
    with kk have lt: "k < k'" by simp
    then have k'pos: "0 < quantum_exp y'" by (simp add: k'_def)
    have "y / 2 ^ k \<le> of_int (2 ^ 53)"
      using quantum_range(1) [OF assms(1)] by (simp add: k_def)
    then have a: "round_half_even (y / 2 ^ k) \<le> 2 ^ 53" by (rule round_half_even_le)
    have "0 \<le> y'" using assms by simp
    from quantum_range(2) [OF this k'pos] have "of_int (2 ^ 52) \<le> y' / 2 ^ k'"
      by (simp add: k'_def)
    then have b: "2 ^ 52 \<le> round_half_even (y' / 2 ^ k')" by (rule round_half_even_ge)
    have "(of_int (round_half_even (y / 2 ^ k)) :: rat) \<le> of_int (2 ^ 53)"
      using a by (simp only: of_int_le_iff)
    then have "round_sig y \<le> 2 ^ 53 * 2 ^ k"
      unfolding round_sig_def k_def [symmetric]
      by (intro mult_right_mono) simp_all
    also have "\<dots> = 2 ^ (53 + k)" by (simp add: power_add)
    also have "\<dots> \<le> 2 ^ (52 + k')" using lt by (intro power_increasing) simp_all
    also have "\<dots> = 2 ^ 52 * 2 ^ k'" by (simp add: power_add)
    also have "\<dots> \<le> round_sig y'"
    proof -
      have "(of_int (2 ^ 52) :: rat) \<le> of_int (round_half_even (y' / 2 ^ k'))"
        using b by (simp only: of_int_le_iff)
      then show ?thesis
        unfolding round_sig_def k'_def [symmetric]
        by (intro mult_right_mono) simp_all
    qed
    finally show ?thesis .
  qed
qed

lemma round_sig_representable:
  assumes "0 \<le> m" "m < 2 ^ 53"
  shows "round_sig (of_int m * 2 ^ q) = of_int m * 2 ^ q"
proof -
  define z :: rat where "z = of_int m * 2 ^ q"
  define k where "k = quantum_exp z"
  have zi: "z = of_int (m * 2 ^ q)" by (simp add: z_def)
  have "m * 2 ^ q < 2 ^ 53 * 2 ^ q" using assms(2) by (intro mult_strict_right_mono) simp_all
  then have "m * 2 ^ q < 2 ^ (53 + q)" by (simp only: power_add)
  then have "m * 2 ^ q < 2 ^ nat (int (53 + q))" by (simp only: nat_int)
  then have "bitlen (m * 2 ^ q) \<le> int (53 + q)"
    by (simp only: bitlen_le_iff_power) simp
  moreover have "\<lfloor>z\<rfloor> = m * 2 ^ q" by (simp only: zi floor_of_int)
  ultimately have kq: "k \<le> q" by (simp add: k_def quantum_exp_def)
  then have "(2::rat) ^ q = 2 ^ (q - k) * 2 ^ k"
    by (simp flip: power_add)
  then have "z / 2 ^ k = of_int (m * 2 ^ (q - k))" by (simp add: z_def)
  then have "round_half_even (z / 2 ^ k) = m * 2 ^ (q - k)"
    by (simp only: round_half_even_of_int)
  then have "round_sig z = of_int (m * 2 ^ (q - k)) * 2 ^ k"
    by (simp add: round_sig_def k_def)
  also have "\<dots> = of_int m * (2 ^ (q - k) * 2 ^ k)" by simp
  also have "\<dots> = z" using kq by (simp add: z_def flip: power_add)
  finally show ?thesis by (simp add: z_def)
qed

lemma round_sig_idem:
  assumes "0 \<le> y"
  shows "round_sig (round_sig y) = round_sig y"
proof -
  define k where "k = quantum_exp y"
  define M where "M = round_half_even (y / 2 ^ k)"
  have rs: "round_sig y = of_int M * 2 ^ k" by (simp add: round_sig_def k_def M_def)
  have M0: "0 \<le> M" using assms by (simp add: M_def round_half_even_nonneg)
  have "y / 2 ^ k \<le> of_int (2 ^ 53)"
    using quantum_range(1) [OF assms] by (simp add: k_def)
  then have M1: "M \<le> 2 ^ 53" unfolding M_def by (rule round_half_even_le)
  show ?thesis
  proof (cases "M = 2 ^ 53")
    case True
    have "round_sig y = of_int (2 ^ 52) * 2 ^ (Suc k)" by (simp add: rs True)
    moreover have "round_sig (of_int (2 ^ 52) * 2 ^ (Suc k)) = of_int (2 ^ 52) * 2 ^ (Suc k)"
      by (rule round_sig_representable) simp_all
    ultimately show ?thesis by simp
  next
    case False
    with M1 have "M < 2 ^ 53" by simp
    from round_sig_representable [OF M0 this] show ?thesis by (simp add: rs)
  qed
qed

lemma fl_pos_mono: "0 \<le> x \<Longrightarrow> x \<le> y \<Longrightarrow> fl_pos x \<le> fl_pos y"
  unfolding fl_pos_def by (intro divide_right_mono round_sig_mono) simp_all

lemma fl_pos_idem:
  assumes "0 \<le> x"
  shows "fl_pos (fl_pos x) = fl_pos x"
proof -
  have "fl_pos x * 2 ^ emin = round_sig (x * 2 ^ emin)" by (simp add: fl_pos_def)
  then have "fl_pos (fl_pos x) = round_sig (round_sig (x * 2 ^ emin)) / 2 ^ emin"
    by (simp add: fl_pos_def)
  also have "\<dots> = fl_pos x"
    using assms by (simp add: round_sig_idem fl_pos_def)
  finally show ?thesis .
qed

lemma fl_mono_nonneg: "0 \<le> x \<Longrightarrow> x \<le> y \<Longrightarrow> fl x \<le> fl y"
  by (simp add: fl_def fl_pos_mono)

lemma fl_idem_nonneg: "0 \<le> x \<Longrightarrow> fl (fl x) = fl x"
  using fl_nonneg [of x] by (simp add: fl_def fl_pos_idem)

lemma fl_exact:
  assumes "0 \<le> m" "m < 2 ^ 53" "j \<le> emin"
  shows "fl (of_int m / 2 ^ j) = of_int m / 2 ^ j"
proof -
  have "(2::rat) ^ emin = 2 ^ (emin - j) * 2 ^ j"
    using assms(3) by (simp flip: power_add)
  then have "of_int m / 2 ^ j * 2 ^ emin = (of_int m * 2 ^ (emin - j) :: rat)"
    by simp
  then have "fl_pos (of_int m / 2 ^ j) = of_int m * 2 ^ (emin - j) / 2 ^ emin"
    by (simp add: fl_pos_def round_sig_representable [OF assms(1,2)])
  also have "\<dots> = of_int m / 2 ^ j"
    using \<open>(2::rat) ^ emin = 2 ^ (emin - j) * 2 ^ j\<close> by simp
  finally have "fl_pos (of_int m / 2 ^ j) = of_int m / 2 ^ j" .
  moreover have "\<not> (of_int m / 2 ^ j :: rat) < 0" using assms(1) by (simp add: not_less)
  ultimately show ?thesis by (simp only: fl_def if_False)
qed

lemma fl_of_int: "0 \<le> n \<Longrightarrow> n < 2 ^ 53 \<Longrightarrow> fl (of_int n) = of_int n"
  using fl_exact [of n 0] by simp

lemma fadd_ge_left:
  assumes "0 \<le> x" "0 \<le> d"
  shows "fl x \<le> fadd (fl x) d"
proof -
  have "fl (fl x) \<le> fl (fl x + d)"
    using assms by (intro fl_mono_nonneg fl_nonneg) simp_all
  then show ?thesis using assms by (simp add: fadd_def fl_idem_nonneg)
qed

section \<open>The translation stage\<close>

lemma length_assign_translations:
  "length (assign_translations segments ts) = length segments"
  by (induction segments ts rule: assign_translations.induct) simp_all

lemma nth_assign_translations:
  "i < length segments \<Longrightarrow>
   assign_translations segments ts ! i =
     (if i < length ts then (segments ! i)\<lparr>translated_text := Some (ts ! i)\<rparr> else segments ! i)"
proof (induction segments ts arbitrary: i rule: assign_translations.induct)
  case (1 seg segments translated translated_lines)
  then show ?case by (cases i) simp_all
qed simp_all

text \<open>
  C6. When \<open>translate_lines\<close> returns fewer lines than there are segments, the
  translation stage keeps the number of segments, sets \<open>translated_text\<close> of the
  segment at each position below the number of returned lines to the line at that position
  and changes no other field, and leaves every later segment as it was (so its
  \<open>translated_text\<close> stays \<open>None\<close>).
\<close>

theorem translation_stage_truncates:
  assumes "ts = translate_lines (map seg_text segments) response_text"
    and "length ts < length segments"
  shows "length (translation_stage response_text segments) = length segments \<and>
         (\<forall>i < length ts. translation_stage response_text segments ! i =
              (segments ! i)\<lparr>translated_text := Some (ts ! i)\<rparr>) \<and>
         (\<forall>i. length ts \<le> i \<and> i < length segments \<longrightarrow>
              translation_stage response_text segments ! i = segments ! i)"
  using assms
  by (simp add: translation_stage_def length_assign_translations nth_assign_translations)

lemma translate_one_of_two:
  "translate_lines [''Hello'', ''World''] ''1. Xin chao'' = [''Xin chao'']"
  by code_simp

theorem translation_stage_truncates_witness:
  "length (translation_stage ''1. Xin chao'' [seg_hello, seg_world]) = 2 \<and>
   translation_stage ''1. Xin chao'' [seg_hello, seg_world] ! 0 =
     seg_hello\<lparr>translated_text := Some ''Xin chao''\<rparr> \<and>
   translation_stage ''1. Xin chao'' [seg_hello, seg_world] ! 1 = seg_world \<and>
   translated_text seg_world = None"
proof -
  have ts: "[''Xin chao''] = translate_lines (map seg_text [seg_hello, seg_world]) ''1. Xin chao''"
    by (simp add: seg_hello_def seg_world_def translate_one_of_two)
  have len: "length [''Xin chao''] < length [seg_hello, seg_world]" by simp
  from translation_stage_truncates [OF ts len] show ?thesis
    by (simp add: seg_world_def)
qed

section \<open>The response parser\<close>

text \<open>
  C4. The primary pass does not look for a marker at the start of the line: on a line
  that starts with a digit it cuts at the first full stop wherever it stands. The line
  \<open>1) Xin chao. Tam biet\<close> keeps only \<open>Tam biet\<close>, and \<open>3 apples. Nice\<close>, which has no
  marker, keeps only \<open>Nice\<close>.
\<close>

theorem primary_pass_cuts_at_first_full_stop:
  "parse_numbered_line ''1) Xin chao. Tam biet'' = ''Tam biet'' \<and>
   parse_numbered_line ''3 apples. Nice'' = ''Nice'' \<and>
   translate_lines [''Hello. Bye''] ''1) Xin chao. Tam biet'' = [''Tam biet'']"
  by code_simp

text \<open>
  C5. The lenient pass drops every non-empty line that does not start with a digit
  before it looks at anything else, so a line that starts with anything but a digit is
  dropped, whether it holds digits or not. For two input lines and the response
  \<open>1. Hola\<close>, \<open>Mundo\<close>, \<open>Note 2 self\<close> it recovers one line, not the two the rule of
  the claim keeps, and \<open>translate_lines\<close> returns the three lines of the primary pass.
\<close>

theorem lenient_pass_drops_unnumbered_line:
  "parse_lenient (splitlines response_unnumbered) = [''Hola''] \<and>
   parse_lenient [''Mundo''] = [] \<and>
   translate_lines [''Hello'', ''World''] response_unnumbered =
     [''Hola'', ''Mundo'', ''Note 2 self'']"
  by code_simp

section \<open>The subtitle writer\<close>

lemma length_srt_block: "length (srt_block ut ua seg) = 4"
  by (simp add: srt_block_def)

lemma srt_lines_concat:
  "srt_lines ut ua segments =
   concat (map (srt_block ut ua) (filter (\<lambda>seg. selected_text ut seg \<noteq> []) segments))"
  by (induction segments) (simp_all add: srt_entry_def)

lemma length_concat_blocks:
  "length (concat (map (srt_block ut ua) segs)) = 4 * length segs"
  by (induction segs) (simp_all add: length_srt_block)

text \<open>Joining lines with newlines is ending every line with a newline and dropping the
  last one.\<close>

lemma join_lines_newline:
  "ls \<noteq> [] \<Longrightarrow> join_lines ls @ [CHR 0x0A] = concat (map (\<lambda>l. l @ [CHR 0x0A]) ls)"
  by (induction ls rule: join_lines.induct) simp_all

lemma join_lines_butlast: "join_lines ls = butlast (concat (map (\<lambda>l. l @ [CHR 0x0A]) ls))"
proof (cases "ls = []")
  case True
  then show ?thesis by simp
next
  case False
  from join_lines_newline [OF this] show ?thesis by (metis butlast_snoc)
qed

lemma srt_lines_append:
  "srt_lines ut ua (xs @ ys) = srt_lines ut ua xs @ srt_lines ut ua ys"
  by (induction xs) simp_all

lemma block_text:
  "concat (map (\<lambda>l. l @ [CHR 0x0A]) (concat (map (srt_block ut ua) segs))) =
   concat (map (\<lambda>seg. str_int (index seg) @ [CHR 0x0A] @
      (if ua \<and> actual_start seg \<noteq> None \<and> actual_end seg \<noteq> None
       then format_timestamp (the (actual_start seg)) @ '' --> '' @
            format_timestamp (the (actual_end seg))
       else format_timestamp (start seg) @ '' --> '' @ format_timestamp (seg_end seg)) @
      [CHR 0x0A] @ strip (selected_text ut seg) @ [CHR 0x0A, CHR 0x0A]) segs)"
  by (induction segs) (simp_all add: srt_block_def)

text \<open>
  C8. For every segment list and both flags, the lines \<open>write_srt\<close> collects are the
  four-line blocks of the segments whose selected text is not empty, one block for each, in
  the order of the segment list; the other segments add nothing. The file written holds one
  block of text for each of these segments, in the same order and nothing else: the index, a
  newline, the timing line (the achieved times when they are asked for and both are set, the
  nominal times otherwise), a newline, the stripped text and two newlines; only the newline
  at the very end of the file is left out. No other file changes.
\<close>

theorem write_srt_blocks:
  "srt_lines ut ua segments =
     concat (map (srt_block ut ua) (filter (\<lambda>seg. selected_text ut seg \<noteq> []) segments)) \<and>
   length (srt_block ut ua seg) = 4 \<and>
   length (srt_lines ut ua segments) =
     4 * length (filter (\<lambda>seg. selected_text ut seg \<noteq> []) segments) \<and>
   write_srt segments path ut ua fs path = Some (join_lines (srt_lines ut ua segments)) \<and>
   write_srt segments path ut ua fs =
     fs(path \<mapsto> butlast (concat (map
       (\<lambda>seg. str_int (index seg) @ [CHR 0x0A] @
          (if ua \<and> actual_start seg \<noteq> None \<and> actual_end seg \<noteq> None
           then format_timestamp (the (actual_start seg)) @ '' --> '' @
                format_timestamp (the (actual_end seg))
           else format_timestamp (start seg) @ '' --> '' @ format_timestamp (seg_end seg)) @
          [CHR 0x0A] @ strip (selected_text ut seg) @ [CHR 0x0A, CHR 0x0A])
       (filter (\<lambda>seg. selected_text ut seg \<noteq> []) segments))))"
proof -
  have "write_srt segments path ut ua fs =
     fs(path \<mapsto> butlast (concat (map (\<lambda>l. l @ [CHR 0x0A])
       (concat (map (srt_block ut ua) (filter (\<lambda>seg. selected_text ut seg \<noteq> []) segments))))))"
    by (simp only: write_srt_def join_lines_butlast srt_lines_concat)
  then have w: "write_srt segments path ut ua fs =
     fs(path \<mapsto> butlast (concat (map
       (\<lambda>seg. str_int (index seg) @ [CHR 0x0A] @
          (if ua \<and> actual_start seg \<noteq> None \<and> actual_end seg \<noteq> None
           then format_timestamp (the (actual_start seg)) @ '' --> '' @
                format_timestamp (the (actual_end seg))
           else format_timestamp (start seg) @ '' --> '' @ format_timestamp (seg_end seg)) @
          [CHR 0x0A] @ strip (selected_text ut seg) @ [CHR 0x0A, CHR 0x0A])
       (filter (\<lambda>seg. selected_text ut seg \<noteq> []) segments))))"
    by (simp only: block_text)
  have l: "length (srt_lines ut ua segments) =
     4 * length (filter (\<lambda>seg. selected_text ut seg \<noteq> []) segments)"
    by (simp only: srt_lines_concat length_concat_blocks)
  have j: "write_srt segments path ut ua fs path = Some (join_lines (srt_lines ut ua segments))"
    by (simp add: write_srt_def)
  from srt_lines_concat [of ut ua segments] length_srt_block [of ut ua seg] l j w
  show ?thesis by blast
qed

lemma millis_of_0: "py_round (fmul 0 1000) = 0"
  by (simp add: py_round_def fmul_def round_half_even_def)

lemma millis_of_2: "py_round (fmul 2 1000) = 2000"
  using fl_pos_normal [of 42 2000]
  by (simp add: py_round_def fmul_def fl_def round_half_even_def Let_def)

lemma timestamp_0: "format_timestamp 0 = ''00:00:00,000''"
  by (simp only: format_timestamp_def millis_of_0) code_simp

lemma timestamp_2: "format_timestamp 2 = ''00:00:02,000''"
  by (simp only: format_timestamp_def millis_of_2) code_simp

lemma millis_of_3: "py_round (fmul 3 1000) = 3000"
  using fl_pos_normal [of 41 3000]
  by (simp add: py_round_def fmul_def fl_def round_half_even_def Let_def)

lemma millis_of_5: "py_round (fmul 5 1000) = 5000"
  using fl_pos_normal [of 40 5000]
  by (simp add: py_round_def fmul_def fl_def round_half_even_def Let_def)

lemma millis_of_2500: "py_round (fmul (5 / 2) 1000) = 2500"
  using fl_pos_normal [of 41 2500]
  by (simp add: py_round_def fmul_def fl_def round_half_even_def Let_def)

lemma timestamp_3: "format_timestamp 3 = ''00:00:03,000''"
  by (simp only: format_timestamp_def millis_of_3) code_simp

lemma timestamp_5: "format_timestamp 5 = ''00:00:05,000''"
  by (simp only: format_timestamp_def millis_of_5) code_simp

lemma timestamp_2500: "format_timestamp (5 / 2) = ''00:00:02,500''"
  by (simp only: format_timestamp_def millis_of_2500) code_simp

lemma str_int_small: "str_int 1 = ''1''" "str_int 2 = ''2''" "str_int 3 = ''3''"
  by code_simp+

lemma strip_words: "strip ''Hello'' = ''Hello''" "strip ''World'' = ''World''"
  "strip ''Xin chao'' = ''Xin chao''"
  by code_simp+

text \<open>Of three segments, the second with empty texts, the first and the third are
  written, the first with its translation and the third, which has none, with its own
  text.\<close>

theorem write_srt_blocks_witness:
  "write_srt [seg_w1, seg_w2, seg_w3] ''out.srt'' True False Map.empty =
     [''out.srt'' \<mapsto>
      ''1\<newline>00:00:00,000 --> 00:00:02,000\<newline>Xin chao\<newline>\<newline>3\<newline>00:00:03,000 --> 00:00:05,000\<newline>World\<newline>'']"
proof -
  have s: "selected_text True seg_w1 = ''Xin chao''" "selected_text True seg_w2 = ''''"
    "selected_text True seg_w3 = ''World''"
    by (simp_all add: selected_text_def truthy_def seg_w1_def seg_w2_def seg_w3_def)
  have f: "index seg_w1 = 1" "start seg_w1 = 0" "seg_end seg_w1 = 2"
    "index seg_w3 = 3" "start seg_w3 = 3" "seg_end seg_w3 = 5"
    by (simp_all add: seg_w1_def seg_w3_def)
  from write_srt_blocks [of True False "[seg_w1, seg_w2, seg_w3]" seg_w1 "''out.srt''" Map.empty]
  have "write_srt [seg_w1, seg_w2, seg_w3] ''out.srt'' True False Map.empty =
     Map.empty(''out.srt'' \<mapsto> butlast (concat (map
       (\<lambda>seg. str_int (index seg) @ [CHR 0x0A] @
          (if False \<and> actual_start seg \<noteq> None \<and> actual_end seg \<noteq> None
           then format_timestamp (the (actual_start seg)) @ '' --> '' @
                format_timestamp (the (actual_end seg))
           else format_timestamp (start seg) @ '' --> '' @ format_timestamp (seg_end seg)) @
          [CHR 0x0A] @ strip (selected_text True seg) @ [CHR 0x0A, CHR 0x0A])
       (filter (\<lambda>seg. selected_text True seg \<noteq> []) [seg_w1, seg_w2, seg_w3]))))"
    by blast
  then show ?thesis
    by (simp add: s f str_int_small strip_words timestamp_0 timestamp_2 timestamp_3 timestamp_5)
qed

text \<open>
  C10. With \<open>use_actual_timing\<close> set, a segment whose \<open>actual_start\<close> or \<open>actual_end\<close>
  is \<open>None\<close> and whose selected text is not empty is not skipped: wherever it stands in
  the segment list, the file holds, between the text of the segments before it and the text
  of the segments after it, its block with the nominal \<open>start\<close> and \<open>end\<close> in the
  timing line.
\<close>

theorem write_srt_falls_back_to_nominal:
  assumes "actual_start seg = None \<or> actual_end seg = None"
    and "selected_text ut seg \<noteq> []"
  shows "srt_entry ut True seg =
           [str_int (index seg),
            format_timestamp (start seg) @ '' --> '' @ format_timestamp (seg_end seg),
            strip (selected_text ut seg),
            []] \<and>
         write_srt (before @ seg # after) path ut True fs =
           fs(path \<mapsto> butlast
             (concat (map (\<lambda>l. l @ [CHR 0x0A]) (srt_lines ut True before)) @
              str_int (index seg) @ [CHR 0x0A] @
              format_timestamp (start seg) @ '' --> '' @ format_timestamp (seg_end seg) @
              [CHR 0x0A] @ strip (selected_text ut seg) @ [CHR 0x0A, CHR 0x0A] @
              concat (map (\<lambda>l. l @ [CHR 0x0A]) (srt_lines ut True after))))"
proof -
  have e: "srt_entry ut True seg =
           [str_int (index seg),
            format_timestamp (start seg) @ '' --> '' @ format_timestamp (seg_end seg),
            strip (selected_text ut seg),
            []]"
    using assms by (auto simp: srt_entry_def srt_block_def)
  have "srt_lines ut True (before @ seg # after) =
      srt_lines ut True before @ srt_entry ut True seg @ srt_lines ut True after"
    by (simp add: srt_lines_append)
  then have "write_srt (before @ seg # after) path ut True fs =
      fs(path \<mapsto> butlast (concat (map (\<lambda>l. l @ [CHR 0x0A])
        (srt_lines ut True before @ srt_entry ut True seg @ srt_lines ut True after))))"
    by (simp only: write_srt_def join_lines_butlast)
  then show ?thesis
    unfolding e by simp
qed

text \<open>A segment with achieved times is written with them, the next one, which has
  none, with its nominal times.\<close>

theorem write_srt_falls_back_to_nominal_witness:
  "write_srt [seg_synced, seg_world] ''synced.srt'' False True Map.empty =
     [''synced.srt'' \<mapsto>
      ''1\<newline>00:00:00,000 --> 00:00:02,500\<newline>Hello\<newline>\<newline>2\<newline>00:00:02,000 --> 00:00:05,000\<newline>World\<newline>'']"
proof -
  have a: "actual_start seg_world = None \<or> actual_end seg_world = None"
    by (simp add: seg_world_def)
  have b: "selected_text False seg_world \<noteq> []"
    by (simp add: seg_world_def selected_text_def)
  have c: "index seg_world = 2" "start seg_world = 2" "seg_end seg_world = 5"
    "selected_text False seg_world = ''World''"
    by (simp_all add: seg_world_def selected_text_def)
  have d: "srt_lines False True [seg_synced] =
      [''1'', ''00:00:00,000 --> 00:00:02,500'', ''Hello'', '''']"
    by (simp add: srt_entry_def srt_block_def selected_text_def seg_synced_def str_int_small
        strip_words timestamp_0 timestamp_2500)
  from write_srt_falls_back_to_nominal [OF a b, of "[seg_synced]" "[]" "''synced.srt''" Map.empty]
  have "write_srt ([seg_synced] @ seg_world # []) ''synced.srt'' False True Map.empty =
           Map.empty(''synced.srt'' \<mapsto> butlast
             (concat (map (\<lambda>l. l @ [CHR 0x0A]) (srt_lines False True [seg_synced])) @
              str_int (index seg_world) @ [CHR 0x0A] @
              format_timestamp (start seg_world) @ '' --> '' @
              format_timestamp (seg_end seg_world) @
              [CHR 0x0A] @ strip (selected_text False seg_world) @ [CHR 0x0A, CHR 0x0A] @
              concat (map (\<lambda>l. l @ [CHR 0x0A]) (srt_lines False True []))))"
    by blast
  then show ?thesis
    unfolding d c by (simp add: str_int_small strip_words timestamp_2 timestamp_5)
qed


section \<open>Timestamps\<close>

lemma digit_char_0: "digit_char 0 = CHR ''0''"
  by (simp add: digit_char_def)

lemma str_nat_lt10: "n < 10 \<Longrightarrow> str_nat n = [digit_char n]"
  by (simp add: str_nat.simps)

lemma str_nat_lt100:
  "10 \<le> n \<Longrightarrow> n < 100 \<Longrightarrow> str_nat n = [digit_char (n div 10), digit_char (n mod 10)]"
  by (subst str_nat.simps) (simp add: str_nat_lt10)

lemma str_nat_lt1000:
  "100 \<le> n \<Longrightarrow> n < 1000 \<Longrightarrow>
   str_nat n = [digit_char (n div 100), digit_char (n div 10 mod 10), digit_char (n mod 10)]"
  by (subst str_nat.simps) (simp add: str_nat_lt100 div_mult2_eq [symmetric])

lemma zero_pad_2:
  assumes "0 \<le> i" "i < 100"
  shows "zero_pad 2 i = [digit_char (nat i div 10), digit_char (nat i mod 10)]"
proof (cases "nat i < 10")
  case True
  then show ?thesis using assms
    by (simp add: zero_pad_def str_nat_lt10 digit_char_0 numeral_2_eq_2)
next
  case False
  then show ?thesis using assms
    by (simp add: zero_pad_def str_nat_lt100)
qed

lemma zero_pad_3:
  assumes "0 \<le> i" "i < 1000"
  shows "zero_pad 3 i =
    [digit_char (nat i div 100), digit_char (nat i div 10 mod 10), digit_char (nat i mod 10)]"
proof -
  consider "nat i < 10" | "10 \<le> nat i" "nat i < 100" | "100 \<le> nat i" by linarith
  then show ?thesis
  proof cases
    case 1
    then show ?thesis using assms
      by (simp add: zero_pad_def str_nat_lt10 digit_char_0 numeral_3_eq_3)
  next
    case 2
    then show ?thesis using assms
      by (simp add: zero_pad_def str_nat_lt100 digit_char_0 numeral_3_eq_3)
  next
    case 3
    then show ?thesis using assms
      by (simp add: zero_pad_def str_nat_lt1000)
  qed
qed

lemma py_round_fmul_nonneg: "0 \<le> x \<Longrightarrow> 0 \<le> py_round (fmul x 1000)"
  by (simp add: py_round_def fmul_def round_half_even_nonneg fl_nonneg)

text \<open>
  C9. For every number of seconds that is not negative and rounds to fewer than
  360000000 milliseconds (100 hours), \<open>format_timestamp\<close> gives exactly twelve
  characters: two digits of hours, a colon, two digits of minutes, a colon, two digits of
  seconds, a comma and three digits of milliseconds, where the milliseconds are the seconds
  times 1000 rounded to the nearest integer. Running \<open>write_srt\<close> a second time with the same
  arguments leaves the files as the first run left them.
\<close>

theorem format_timestamp_fixed_width:
  assumes "0 \<le> seconds" and "py_round (fmul seconds 1000) < 360000000"
  shows "(let millis = py_round (fmul seconds 1000);
              h = nat (millis div 3600000);
              m = nat (millis mod 3600000 div 60000);
              s = nat (millis mod 3600000 mod 60000 div 1000);
              ms = nat (millis mod 3600000 mod 60000 mod 1000)
          in format_timestamp seconds =
               [digit_char (h div 10), digit_char (h mod 10), CHR '':'',
                digit_char (m div 10), digit_char (m mod 10), CHR '':'',
                digit_char (s div 10), digit_char (s mod 10), CHR '','',
                digit_char (ms div 100), digit_char (ms div 10 mod 10), digit_char (ms mod 10)] \<and>
             h < 100 \<and> m < 60 \<and> s < 60 \<and> ms < 1000) \<and>
         write_srt segments path ut ua (write_srt segments path ut ua fs) =
           write_srt segments path ut ua fs"
proof -
  define millis where "millis = py_round (fmul seconds 1000)"
  have m0: "0 \<le> millis" unfolding millis_def using assms(1) by (rule py_round_fmul_nonneg)
  have m1: "millis < 360000000" using assms(2) by (simp add: millis_def)
  have h: "0 \<le> millis div 3600000" "millis div 3600000 < 100"
    using m0 m1 by simp_all
  have mi: "0 \<le> millis mod 3600000 div 60000" "millis mod 3600000 div 60000 < 60"
    by simp_all
  have s: "0 \<le> millis mod 3600000 mod 60000 div 1000"
    "millis mod 3600000 mod 60000 div 1000 < 60"
    by simp_all
  have ms: "0 \<le> millis mod 3600000 mod 60000 mod 1000"
    "millis mod 3600000 mod 60000 mod 1000 < 1000"
    by simp_all
  have mi': "millis mod 3600000 div 60000 < 100" using mi(2) by linarith
  have s': "millis mod 3600000 mod 60000 div 1000 < 100" using s(2) by linarith
  have "format_timestamp seconds =
      zero_pad 2 (millis div 3600000) @ '':'' @ zero_pad 2 (millis mod 3600000 div 60000) @
      '':'' @ zero_pad 2 (millis mod 3600000 mod 60000 div 1000) @ '','' @
      zero_pad 3 (millis mod 3600000 mod 60000 mod 1000)"
    by (simp add: format_timestamp_def Let_def millis_def)
  then have "format_timestamp seconds =
      [digit_char (nat (millis div 3600000) div 10), digit_char (nat (millis div 3600000) mod 10),
       CHR '':'',
       digit_char (nat (millis mod 3600000 div 60000) div 10),
       digit_char (nat (millis mod 3600000 div 60000) mod 10), CHR '':'',
       digit_char (nat (millis mod 3600000 mod 60000 div 1000) div 10),
       digit_char (nat (millis mod 3600000 mod 60000 div 1000) mod 10), CHR '','',
       digit_char (nat (millis mod 3600000 mod 60000 mod 1000) div 100),
       digit_char (nat (millis mod 3600000 mod 60000 mod 1000) div 10 mod 10),
       digit_char (nat (millis mod 3600000 mod 60000 mod 1000) mod 10)]"
    by (simp only: zero_pad_2 [OF h] zero_pad_2 [OF mi(1) mi'] zero_pad_2 [OF s(1) s']
        zero_pad_3 [OF ms] append.simps)
  moreover have "nat (millis div 3600000) < 100" using h by linarith
  moreover have "nat (millis mod 3600000 div 60000) < 60" using mi by linarith
  moreover have "nat (millis mod 3600000 mod 60000 div 1000) < 60" using s by linarith
  moreover have "nat (millis mod 3600000 mod 60000 mod 1000) < 1000" using ms by linarith
  moreover have "write_srt segments path ut ua (write_srt segments path ut ua fs) =
           write_srt segments path ut ua fs"
    by (simp add: write_srt_def)
  ultimately show ?thesis
    unfolding Let_def millis_def by blast
qed

theorem format_timestamp_fixed_width_witness:
  "format_timestamp 2 = ''00:00:02,000'' \<and>
   write_srt [seg_hello] ''out.srt'' False False
     (write_srt [seg_hello] ''out.srt'' False False Map.empty) =
   write_srt [seg_hello] ''out.srt'' False False Map.empty"
proof -
  have a: "(0::rat) \<le> 2" by simp
  have b: "py_round (fmul 2 1000) < 360000000" by (simp add: millis_of_2)
  note t = format_timestamp_fixed_width [OF a b, of "[seg_hello]" "''out.srt''" False False
      Map.empty, unfolded millis_of_2 Let_def]
  from t have "format_timestamp 2 = ''00:00:02,000''"
    by (simp add: digit_char_def)
  with t show ?thesis by blast
qed

text \<open>From 100 hours on the hours take three digits or more.\<close>

lemma millis_of_100h: "py_round (fmul 360000 1000) = 360000000"
  using fl_pos_normal [of 24 360000000]
  by (simp add: py_round_def fmul_def fl_def round_half_even_def Let_def)

theorem format_timestamp_100_hours: "format_timestamp 360000 = ''100:00:00,000''"
  by (simp only: format_timestamp_def millis_of_100h) code_simp

section \<open>The assembler\<close>

lemma float_of_int_nonneg: "0 \<le> n \<Longrightarrow> 0 \<le> float_of_int n"
  by (simp add: float_of_int_def fl_nonneg)

lemma fdiv_nonneg: "0 \<le> x \<Longrightarrow> 0 \<le> y \<Longrightarrow> 0 \<le> fdiv x y"
  by (simp add: fdiv_def fl_nonneg)

lemma len_ms_nonneg: "0 \<le> len_ms c"
  unfolding len_ms_def py_round_def fmul_def
  by (intro round_half_even_nonneg fl_nonneg mult_nonneg_nonneg fdiv_nonneg float_of_int_nonneg)
    simp_all

lemma frame_rate_set_frame_rate: "frame_rate (set_frame_rate c r) = r"
  by (simp add: set_frame_rate_def)

lemma frame_rate_time_stretch:
  "frame_rate (time_stretch_to_duration piece target_ms) = frame_rate piece"
  by (simp add: time_stretch_to_duration_def Let_def frame_rate_set_frame_rate)

lemma length_arrange: "length (arrange p ps) = length ps"
  by (induction ps arbitrary: p) (auto simp: Let_def)

lemma arrange_keeps_start:
  "map (\<lambda>sp. start (fst sp)) (arrange p ps) = map (\<lambda>sp. start (fst sp)) ps"
  by (induction ps arbitrary: p) (auto simp: Let_def)


lemma arrange_keeps_frame_rate:
  "map (\<lambda>sp. frame_rate (snd sp)) (arrange p ps) = map (\<lambda>sp. frame_rate (snd sp)) ps"
  by (induction ps arbitrary: p) (auto simp: Let_def frame_rate_time_stretch)

text \<open>The cursor before the clip at position \<open>i\<close>.\<close>

lemma arrange_nth:
  assumes "i < length ps"
  shows "actual_start (fst (arrange p ps ! i)) =
           Some (fdiv (float_of_int (p + sum_list (map (\<lambda>sp. len_ms (snd sp))
              (take i (arrange p ps))))) 1000) \<and>
         actual_end (fst (arrange p ps ! i)) =
           Some (fadd (fdiv (float_of_int (p + sum_list (map (\<lambda>sp. len_ms (snd sp))
              (take i (arrange p ps))))) 1000)
             (fdiv (float_of_int (len_ms (snd (arrange p ps ! i)))) 1000))"
  using assms
proof (induction ps arbitrary: p i)
  case Nil
  then show ?case by simp
next
  case (Cons sp ps)
  obtain seg piece where sp: "sp = (seg, piece)" by (cases sp)
  show ?case
  proof (cases i)
    case 0
    then show ?thesis by (simp add: sp Let_def)
  next
    case (Suc i')
    with Cons.prems have "i' < length ps" by simp
    from Cons.IH [OF this] show ?thesis
      by (simp add: sp Suc Let_def add.assoc)
  qed
qed

lemma fdiv_cursor_le_fadd:
  assumes "0 \<le> c"
  shows "fdiv (float_of_int c) 1000 \<le> fadd (fdiv (float_of_int c) 1000) (fdiv (float_of_int (len_ms a)) 1000)"
proof -
  have "0 \<le> float_of_int c / 1000" using assms by (simp add: float_of_int_nonneg)
  moreover have "0 \<le> fdiv (float_of_int (len_ms a)) 1000"
    by (intro fdiv_nonneg float_of_int_nonneg len_ms_nonneg) simp
  ultimately show ?thesis unfolding fdiv_def [of "float_of_int c"] by (rule fadd_ge_left)
qed

lemma sum_list_len_ms_nonneg: "0 \<le> sum_list (map (\<lambda>sp. len_ms (snd sp)) xs)"
  by (induction xs) (simp_all add: len_ms_nonneg)

lemma foldl_append_audio:
  assumes "frame_rate a = r" "\<forall>c\<in>set cs. frame_rate c = r"
  shows "frame_count (foldl append_audio a cs) = frame_count a + sum_list (map frame_count cs) \<and>
         frame_rate (foldl append_audio a cs) = r"
  using assms
proof (induction cs arbitrary: a)
  case Nil
  then show ?case by simp
next
  case (Cons c cs)
  have ab: "append_audio a c = a\<lparr>frame_count := frame_count a + frame_count c\<rparr>"
    using Cons.prems by (simp add: append_audio_def set_frame_rate_def Let_def)
  have "frame_rate (append_audio a c) = r" using Cons.prems by (simp add: ab)
  moreover have "\<forall>c\<in>set cs. frame_rate c = r" using Cons.prems by simp
  ultimately show ?case using Cons.IH [of "append_audio a c"] by (simp add: ab)
qed

lemma silent_0: "silent 0 = \<lparr>frame_count = 0, frame_rate = 11025\<rparr>"
  by (simp add: silent_def float_of_int_def fdiv_def fmul_def py_int_def)

lemma frame_count_combine:
  assumes "\<forall>c\<in>set cs. frame_rate c = r"
  shows "frame_count (combine cs) = sum_list (map frame_count cs)"
proof (cases cs)
  case Nil
  then show ?thesis by (simp add: combine_def silent_0)
next
  case (Cons a as)
  with assms foldl_append_audio [of a r as] show ?thesis by (simp add: combine_def)
qed

lemma sorted_sort_key_start:
  "sorted (map (\<lambda>sp. start (fst sp)) (sort_key (\<lambda>sp. start (fst sp)) pieces))"
  by (rule sorted_sort_key)

text \<open>
  C1. For every list of pieces, let \<open>arranged\<close> be the pieces in the order of the
  track, each segment with its written times next to its adjusted clip, and let
  \<open>cursor i\<close> be the sum of the millisecond lengths of the clips before position \<open>i\<close>.
  Every piece is sequenced, in the order of the nominal start. The cursor of the next segment
  is the cursor of this one plus the length of its clip. \<open>actual_start\<close> is the cursor
  divided by 1000 and \<open>actual_end\<close> is \<open>actual_start\<close> plus the length of the clip
  divided by 1000, both in float arithmetic, and \<open>actual_end\<close> is never below
  \<open>actual_start\<close>. When all the clips have one frame rate, the combined track has as many
  frames as the clips together.
\<close>

theorem assemble_sequence:
  assumes "arranged = arrange 0 (sort_key (\<lambda>sp. start (fst sp)) pieces)"
    and "cursor = (\<lambda>i. sum_list (map (\<lambda>sp. len_ms (snd sp)) (take i arranged)))"
  shows "assemble pieces =
           (map fst arranged, combine (map snd arranged),
            fdiv (float_of_int (len_ms (combine (map snd arranged)))) 1000) \<and>
         length arranged = length pieces \<and>
         sorted (map (\<lambda>sp. start (fst sp)) arranged) \<and>
         (\<forall>i < length arranged.
            actual_start (fst (arranged ! i)) = Some (fdiv (float_of_int (cursor i)) 1000) \<and>
            actual_end (fst (arranged ! i)) =
              Some (fadd (fdiv (float_of_int (cursor i)) 1000)
                         (fdiv (float_of_int (len_ms (snd (arranged ! i)))) 1000)) \<and>
            the (actual_start (fst (arranged ! i))) \<le> the (actual_end (fst (arranged ! i))) \<and>
            cursor (Suc i) = cursor i + len_ms (snd (arranged ! i))) \<and>
         ((\<forall>sp \<in> set pieces. frame_rate (snd sp) = r) \<longrightarrow>
            frame_count (combine (map snd arranged)) =
              sum_list (map (\<lambda>sp. frame_count (snd sp)) arranged))"
proof -
  let ?sorted = "sort_key (\<lambda>sp. start (fst sp)) pieces"
  have a: "assemble pieces =
           (map fst arranged, combine (map snd arranged),
            fdiv (float_of_int (len_ms (combine (map snd arranged)))) 1000)"
    by (simp add: assemble_def Let_def assms(1))
  have b: "length arranged = length pieces"
    by (simp add: assms(1) length_arrange)
  have c: "sorted (map (\<lambda>sp. start (fst sp)) arranged)"
    unfolding assms(1) arrange_keeps_start by (rule sorted_sort_key_start)
  have d: "actual_start (fst (arranged ! i)) = Some (fdiv (float_of_int (cursor i)) 1000) \<and>
            actual_end (fst (arranged ! i)) =
              Some (fadd (fdiv (float_of_int (cursor i)) 1000)
                         (fdiv (float_of_int (len_ms (snd (arranged ! i)))) 1000)) \<and>
            the (actual_start (fst (arranged ! i))) \<le> the (actual_end (fst (arranged ! i))) \<and>
            cursor (Suc i) = cursor i + len_ms (snd (arranged ! i))"
    if i: "i < length arranged" for i
  proof -
    have il: "i < length ?sorted" using i by (simp add: assms(1) length_arrange)
    have n: "actual_start (fst (arranged ! i)) = Some (fdiv (float_of_int (cursor i)) 1000)"
      "actual_end (fst (arranged ! i)) =
              Some (fadd (fdiv (float_of_int (cursor i)) 1000)
                         (fdiv (float_of_int (len_ms (snd (arranged ! i)))) 1000))"
      using arrange_nth [OF il, of 0] by (simp_all add: assms)
    have "0 \<le> cursor i" by (simp add: assms(2) sum_list_len_ms_nonneg)
    then have le: "the (actual_start (fst (arranged ! i))) \<le> the (actual_end (fst (arranged ! i)))"
      unfolding n option.sel by (rule fdiv_cursor_le_fadd)
    have "cursor (Suc i) = cursor i + len_ms (snd (arranged ! i))"
      using i by (simp add: assms(2) take_Suc_conv_app_nth)
    with n le show ?thesis by blast
  qed
  have e: "frame_count (combine (map snd arranged)) =
              sum_list (map (\<lambda>sp. frame_count (snd sp)) arranged)"
    if r: "\<forall>sp \<in> set pieces. frame_rate (snd sp) = r"
  proof -
    have "set (map (\<lambda>sp. frame_rate (snd sp)) arranged) =
          set (map (\<lambda>sp. frame_rate (snd sp)) pieces)"
      unfolding assms(1) arrange_keeps_frame_rate by (simp only: set_map set_sort)
    with r have "\<forall>c\<in>set (map snd arranged). frame_rate c = r" by (auto simp: image_iff) 
    from frame_count_combine [OF this] show ?thesis by (simp add: comp_def)
  qed
  from a b c d e show ?thesis by blast
qed

section \<open>Completion order\<close>



section \<open>Float facts\<close>

lemma fl_numeral:
  "numeral k < (2::int) ^ 53 \<Longrightarrow> fl (numeral k) = numeral k"
  using fl_of_int [of "numeral k"] by simp

lemma fl_one [simp]: "fl 1 = 1"
  using fl_of_int [of 1] by simp

lemma float_of_int_numeral:
  "numeral k < (2::int) ^ 53 \<Longrightarrow> float_of_int (numeral k) = numeral k"
  by (simp add: float_of_int_def fl_numeral)

lemma float_of_int_0 [simp]: "float_of_int 0 = 0"
  by (simp add: float_of_int_def)

lemma fl_quarters: "fl (1 / 4) = 1 / 4" "fl (3 / 4) = 3 / 4" "fl (5 / 4) = 5 / 4"
  using fl_exact [of 1 2] fl_exact [of 3 2] fl_exact [of 5 2] by (simp_all add: emin_def)


lemma fl_pos_eval:
  assumes "j \<le> 1074" and "x * 2 ^ j = of_int f + d" and "2 ^ 52 \<le> f" and "f < 2 ^ 53"
    and "0 \<le> d" and "d < 1"
    and "m = (if d < 1 / 2 then f else if 1 / 2 < d then f + 1 else if even f then f else f + 1)"
  shows "fl_pos x = of_int m / 2 ^ j"
proof -
  have fl: "\<lfloor>x * 2 ^ j\<rfloor> = f"
    using assms(2,5,6) by (intro floor_unique) simp_all
  have d: "x * 2 ^ j - of_int f = d" using assms(2) by simp
  have r: "round_half_even (x * 2 ^ j) = m"
    unfolding round_half_even_def Let_def fl d assms(7) ..
  have "(2::rat) ^ 52 \<le> of_int f" using assms(3) by (metis of_int_le_iff of_int_numeral of_int_power)
  moreover have "of_int f \<le> x * 2 ^ j" using assms(2,5) by simp
  ultimately have lo: "2 ^ 52 \<le> x * 2 ^ j" by (rule order_trans)
  have "f + 1 \<le> 2 ^ 53" using assms(4) by simp
  then have "(of_int (f + 1) :: rat) \<le> 2 ^ 53" by (metis of_int_le_iff of_int_numeral of_int_power)
  moreover have "x * 2 ^ j < of_int (f + 1)" using assms(2,6) by simp
  ultimately have hi: "x * 2 ^ j < 2 ^ 53" by (rule less_le_trans [rotated])
  from fl_pos_normal [OF assms(1) lo hi] show ?thesis by (simp only: r)
qed

lemma fv_1: "fl (1 / 20) = 3602879701896397 / 72057594037927936"
proof -
  have r: "fl_pos (1 / 20) = 3602879701896397 / 72057594037927936"
    using fl_pos_eval [of 57 "1 / 20" 7205759403792793 "3 / 5" 7205759403792794] by simp
  show ?thesis by (simp add: fl_def r)
qed

lemma fv_2: "fl (57 / 10) = 6417629469002957 / 1125899906842624"
proof -
  have r: "fl_pos (57 / 10) = 6417629469002957 / 1125899906842624"
    using fl_pos_eval [of 50 "57 / 10" 6417629469002956 "4 / 5" 6417629469002957] by simp
  show ?thesis by (simp add: fl_def r)
qed

lemma fv_3: "fadd 0 1 = 1"
  by (simp add: fadd_def)

lemma fv_4: "fadd 0 2 = 2"
  by (simp add: fadd_def fl_numeral)

lemma fv_5: "fadd 1 (1 / 4) = 5 / 4"
proof -
  have e: "(1 :: rat) + (1 / 4) = 5 / 4" by simp
  have r: "fl_pos (5 / 4) = 5 / 4"
    using fl_pos_eval [of 52 "5 / 4" 5629499534213120 "0" 5629499534213120] by simp
  show ?thesis by (simp only: fadd_def e) (simp add: fl_def r)
qed

lemma fv_6: "fadd 1 (8691947280825057 / 4503599627370496) = 412360840881111 / 140737488355328"
proof -
  have e: "(1 :: rat) + (8691947280825057 / 4503599627370496) = 13195546908195553 / 4503599627370496" by simp
  have r: "fl_pos (13195546908195553 / 4503599627370496) = 412360840881111 / 140737488355328"
    using fl_pos_eval [of 51 "13195546908195553 / 4503599627370496" 6597773454097776 "1 / 2" 6597773454097776] by simp
  show ?thesis by (simp only: fadd_def e) (simp add: fl_def r)
qed

lemma fv_7: "fadd 2 (1501387525774639 / 562949953421312) = 2627287432617263 / 562949953421312"
proof -
  have e: "(2 :: rat) + (1501387525774639 / 562949953421312) = 2627287432617263 / 562949953421312" by simp
  have r: "fl_pos (2627287432617263 / 562949953421312) = 2627287432617263 / 562949953421312"
    using fl_pos_eval [of 50 "2627287432617263 / 562949953421312" 5254574865234526 "0" 5254574865234526] by simp
  show ?thesis by (simp only: fadd_def e) (simp add: fl_def r)
qed

lemma fv_8: "fadd (6597773454097777 / 2251799813685248) 1 = 8849573267783025 / 2251799813685248"
proof -
  have e: "((6597773454097777 / 2251799813685248) :: rat) + 1 = 8849573267783025 / 2251799813685248" by simp
  have r: "fl_pos (8849573267783025 / 2251799813685248) = 8849573267783025 / 2251799813685248"
    using fl_pos_eval [of 51 "8849573267783025 / 2251799813685248" 8849573267783025 "0" 8849573267783025] by simp
  show ?thesis by (simp only: fadd_def e) (simp add: fl_def r)
qed

lemma fv_9: "fadd (2627287432617263 / 562949953421312) 1 = 3190237386038575 / 562949953421312"
proof -
  have e: "((2627287432617263 / 562949953421312) :: rat) + 1 = 3190237386038575 / 562949953421312" by simp
  have r: "fl_pos (3190237386038575 / 562949953421312) = 3190237386038575 / 562949953421312"
    using fl_pos_eval [of 50 "3190237386038575 / 562949953421312" 6380474772077150 "0" 6380474772077150] by simp
  show ?thesis by (simp only: fadd_def e) (simp add: fl_def r)
qed

lemma fv_10: "fdiv 0 1000 = 0"
  by (simp add: fdiv_def)

lemma fv_11: "fdiv 1000 1000 = 1"
  by (simp add: fdiv_def)

lemma fv_12: "fdiv 1200 1000 = 5404319552844595 / 4503599627370496"
proof -
  have e: "(1200 :: rat) / 1000 = 6 / 5" by simp
  have r: "fl_pos (6 / 5) = 5404319552844595 / 4503599627370496"
    using fl_pos_eval [of 52 "6 / 5" 5404319552844595 "1 / 5" 5404319552844595] by simp
  show ?thesis by (simp only: fdiv_def e) (simp add: fl_def r)
qed

lemma fv_13: "fdiv 1930 1000 = 8691947280825057 / 4503599627370496"
proof -
  have e: "(1930 :: rat) / 1000 = 193 / 100" by simp
  have r: "fl_pos (193 / 100) = 8691947280825057 / 4503599627370496"
    using fl_pos_eval [of 52 "193 / 100" 8691947280825057 "7 / 25" 8691947280825057] by simp
  show ?thesis by (simp only: fdiv_def e) (simp add: fl_def r)
qed

lemma fv_14: "fdiv 1930 2000 = 8691947280825057 / 9007199254740992"
proof -
  have e: "(1930 :: rat) / 2000 = 193 / 200" by simp
  have r: "fl_pos (193 / 200) = 8691947280825057 / 9007199254740992"
    using fl_pos_eval [of 53 "193 / 200" 8691947280825057 "7 / 25" 8691947280825057] by simp
  show ?thesis by (simp only: fdiv_def e) (simp add: fl_def r)
qed

lemma fv_15: "fdiv 2000 1000 = 2"
  by (simp add: fdiv_def fl_numeral)

lemma fv_16: "fdiv 2000 3000 = 6004799503160661 / 9007199254740992"
proof -
  have e: "(2000 :: rat) / 3000 = 2 / 3" by simp
  have r: "fl_pos (2 / 3) = 6004799503160661 / 9007199254740992"
    using fl_pos_eval [of 53 "2 / 3" 6004799503160661 "1 / 3" 6004799503160661] by simp
  show ?thesis by (simp only: fdiv_def e) (simp add: fl_def r)
qed

lemma fv_17: "fdiv 2500 2000 = 5 / 4"
proof -
  have e: "(2500 :: rat) / 2000 = 5 / 4" by simp
  have r: "fl_pos (5 / 4) = 5 / 4"
    using fl_pos_eval [of 52 "5 / 4" 5629499534213120 "0" 5629499534213120] by simp
  show ?thesis by (simp only: fdiv_def e) (simp add: fl_def r)
qed

lemma fv_18: "fdiv 2503 1000 = 176132966676693 / 70368744177664"
proof -
  have r: "fl_pos (2503 / 1000) = 176132966676693 / 70368744177664"
    using fl_pos_eval [of 51 "2503 / 1000" 5636254933654175 "93 / 125" 5636254933654176] by simp
  show ?thesis by (simp only: fdiv_def) (simp add: fl_def r)
qed

lemma fv_19: "fdiv 2667 1000 = 1501387525774639 / 562949953421312"
proof -
  have r: "fl_pos (2667 / 1000) = 1501387525774639 / 562949953421312"
    using fl_pos_eval [of 51 "2667 / 1000" 6005550103098556 "52 / 125" 6005550103098556] by simp
  show ?thesis by (simp only: fdiv_def) (simp add: fl_def r)
qed

lemma fv_20: "fdiv 2930 1000 = 6597773454097777 / 2251799813685248"
proof -
  have e: "(2930 :: rat) / 1000 = 293 / 100" by simp
  have r: "fl_pos (293 / 100) = 6597773454097777 / 2251799813685248"
    using fl_pos_eval [of 51 "293 / 100" 6597773454097776 "16 / 25" 6597773454097777] by simp
  show ?thesis by (simp only: fdiv_def e) (simp add: fl_def r)
qed

lemma fv_21: "fdiv 3931 1000 = 4425912533798355 / 1125899906842624"
proof -
  have r: "fl_pos (3931 / 1000) = 4425912533798355 / 1125899906842624"
    using fl_pos_eval [of 51 "3931 / 1000" 8851825067596709 "111 / 125" 8851825067596710] by simp
  show ?thesis by (simp only: fdiv_def) (simp add: fl_def r)
qed

lemma fv_22: "fdiv 4667 1000 = 2627287432617263 / 562949953421312"
proof -
  have r: "fl_pos (4667 / 1000) = 2627287432617263 / 562949953421312"
    using fl_pos_eval [of 50 "4667 / 1000" 5254574865234526 "26 / 125" 5254574865234526] by simp
  show ?thesis by (simp only: fdiv_def) (simp add: fl_def r)
qed

lemma fv_23: "fdiv 5667 1000 = 3190237386038575 / 562949953421312"
proof -
  have r: "fl_pos (5667 / 1000) = 3190237386038575 / 562949953421312"
    using fl_pos_eval [of 50 "5667 / 1000" 6380474772077150 "26 / 125" 6380474772077150] by simp
  show ?thesis by (simp only: fdiv_def) (simp add: fl_def r)
qed

lemma fv_24: "fdiv 24000 24000 = 1"
  by (simp add: fdiv_def)

lemma fv_25: "fdiv 24010 24000 = 2252738063607617 / 2251799813685248"
proof -
  have e: "(24010 :: rat) / 24000 = 2401 / 2400" by simp
  have r: "fl_pos (2401 / 2400) = 2252738063607617 / 2251799813685248"
    using fl_pos_eval [of 52 "2401 / 2400" 4505476127215233 "53 / 75" 4505476127215234] by simp
  show ?thesis by (simp only: fdiv_def e) (simp add: fl_def r)
qed

lemma fv_26: "fdiv 28800 24000 = 5404319552844595 / 4503599627370496"
proof -
  have e: "(28800 :: rat) / 24000 = 6 / 5" by simp
  have r: "fl_pos (6 / 5) = 5404319552844595 / 4503599627370496"
    using fl_pos_eval [of 52 "6 / 5" 5404319552844595 "1 / 5" 5404319552844595] by simp
  show ?thesis by (simp only: fdiv_def e) (simp add: fl_def r)
qed

lemma fv_27: "fdiv 46330 24000 = 8693823780669795 / 4503599627370496"
proof -
  have e: "(46330 :: rat) / 24000 = 4633 / 2400" by simp
  have r: "fl_pos (4633 / 2400) = 8693823780669795 / 4503599627370496"
    using fl_pos_eval [of 52 "4633 / 2400" 8693823780669794 "74 / 75" 8693823780669795] by simp
  show ?thesis by (simp only: fdiv_def e) (simp add: fl_def r)
qed

lemma fv_28: "fdiv 48000 24000 = 2"
  by (simp add: fdiv_def fl_numeral)

lemma fv_29: "fdiv 48057 24000 = 2254473825963999 / 1125899906842624"
proof -
  have e: "(48057 :: rat) / 24000 = 16019 / 8000" by simp
  have r: "fl_pos (16019 / 8000) = 2254473825963999 / 1125899906842624"
    using fl_pos_eval [of 51 "16019 / 8000" 4508947651927998 "58 / 125" 4508947651927998] by simp
  show ?thesis by (simp only: fdiv_def e) (simp add: fl_def r)
qed

lemma fv_30: "fdiv 60000 24000 = 5 / 2"
proof -
  have e: "(60000 :: rat) / 24000 = 5 / 2" by simp
  have r: "fl_pos (5 / 2) = 5 / 2"
    using fl_pos_eval [of 51 "5 / 2" 5629499534213120 "0" 5629499534213120] by simp
  show ?thesis by (simp only: fdiv_def e) (simp add: fl_def r)
qed

lemma fv_31: "fdiv 60072 24000 = 176132966676693 / 70368744177664"
proof -
  have e: "(60072 :: rat) / 24000 = 2503 / 1000" by simp
  have r: "fl_pos (2503 / 1000) = 176132966676693 / 70368744177664"
    using fl_pos_eval [of 51 "2503 / 1000" 5636254933654175 "93 / 125" 5636254933654176] by simp
  show ?thesis by (simp only: fdiv_def e) (simp add: fl_def r)
qed

lemma fv_32: "fdiv 63999 24000 = 750588209771053 / 281474976710656"
proof -
  have e: "(63999 :: rat) / 24000 = 21333 / 8000" by simp
  have r: "fl_pos (21333 / 8000) = 750588209771053 / 281474976710656"
    using fl_pos_eval [of 51 "21333 / 8000" 6004705678168424 "56 / 125" 6004705678168424] by simp
  show ?thesis by (simp only: fdiv_def e) (simp add: fl_def r)
qed

lemma fv_33: "fdiv 94340 24000 = 4425724883813881 / 1125899906842624"
proof -
  have e: "(94340 :: rat) / 24000 = 4717 / 1200" by simp
  have r: "fl_pos (4717 / 1200) = 4425724883813881 / 1125899906842624"
    using fl_pos_eval [of 51 "4717 / 1200" 8851449767627762 "26 / 75" 8851449767627762] by simp
  show ?thesis by (simp only: fdiv_def e) (simp add: fl_def r)
qed

lemma fv_34: "fdiv 135999 24000 = 1595013139903021 / 281474976710656"
proof -
  have e: "(135999 :: rat) / 24000 = 45333 / 8000" by simp
  have r: "fl_pos (45333 / 8000) = 1595013139903021 / 281474976710656"
    using fl_pos_eval [of 50 "45333 / 8000" 6380052559612084 "28 / 125" 6380052559612084] by simp
  show ?thesis by (simp only: fdiv_def e) (simp add: fl_def r)
qed

lemma fv_35: "fmul 1 1000 = 1000"
  by (simp add: fmul_def fl_numeral)

lemma fv_36: "fmul 2 1000 = 2000"
  by (simp add: fmul_def fl_numeral)

lemma fv_37: "fmul 3 1000 = 3000"
  by (simp add: fmul_def fl_numeral)

lemma fv_38: "fmul 1000 1 = 1000"
  by (simp add: fmul_def fl_numeral)

lemma fv_39: "fmul 1000 (2252738063607617 / 2251799813685248) = 4399879030483627 / 4398046511104"
proof -
  have e: "(1000 :: rat) * (2252738063607617 / 2251799813685248) = 281592257950952125 / 281474976710656" by simp
  have r: "fl_pos (281592257950952125 / 281474976710656) = 4399879030483627 / 4398046511104"
    using fl_pos_eval [of 43 "281592257950952125 / 281474976710656" 8799758060967253 "29 / 32" 8799758060967254] by simp
  show ?thesis by (simp only: fmul_def e) (simp add: fl_def r)
qed

lemma fv_40: "fmul 1000 (5404319552844595 / 4503599627370496) = 1200"
proof -
  have e: "(1000 :: rat) * (5404319552844595 / 4503599627370496) = 675539944105574375 / 562949953421312" by simp
  have r: "fl_pos (675539944105574375 / 562949953421312) = 1200"
    using fl_pos_eval [of 42 "675539944105574375 / 562949953421312" 5277655813324799 "103 / 128" 5277655813324800] by simp
  show ?thesis by (simp only: fmul_def e) (simp add: fl_def r)
qed

lemma fv_41: "fmul 1000 (8693823780669795 / 4503599627370496) = 8490062285810347 / 4398046511104"
proof -
  have e: "(1000 :: rat) * (8693823780669795 / 4503599627370496) = 1086727972583724375 / 562949953421312" by simp
  have r: "fl_pos (1086727972583724375 / 562949953421312) = 8490062285810347 / 4398046511104"
    using fl_pos_eval [of 42 "1086727972583724375 / 562949953421312" 8490062285810346 "87 / 128" 8490062285810347] by simp
  show ?thesis by (simp only: fmul_def e) (simp add: fl_def r)
qed

lemma fv_42: "fmul 1000 2 = 2000"
  by (simp add: fmul_def fl_numeral)

lemma fv_43: "fmul 1000 (2254473825963999 / 1125899906842624) = 8806538382671871 / 4398046511104"
proof -
  have e: "(1000 :: rat) * (2254473825963999 / 1125899906842624) = 281809228245499875 / 140737488355328" by simp
  have r: "fl_pos (281809228245499875 / 140737488355328) = 8806538382671871 / 4398046511104"
    using fl_pos_eval [of 42 "281809228245499875 / 140737488355328" 8806538382671871 "3 / 32" 8806538382671871] by simp
  show ?thesis by (simp only: fmul_def e) (simp add: fl_def r)
qed

lemma fv_44: "fmul 1000 (5 / 2) = 2500"
  by (simp add: fmul_def fl_numeral)

lemma fv_45: "fmul 1000 (176132966676693 / 70368744177664) = 2503"
proof -
  have e: "(1000 :: rat) * (176132966676693 / 70368744177664) = 22016620834586625 / 8796093022208" by simp
  have r: "fl_pos (22016620834586625 / 8796093022208) = 2503"
    using fl_pos_eval [of 41 "22016620834586625 / 8796093022208" 5504155208646656 "1 / 4" 5504155208646656] by simp
  show ?thesis by (simp only: fmul_def e) (simp add: fl_def r)
qed

lemma fv_46: "fmul 1000 (750588209771053 / 281474976710656) = 21333 / 8"
proof -
  have e: "(1000 :: rat) * (750588209771053 / 281474976710656) = 93823526221381625 / 35184372088832" by simp
  have r: "fl_pos (93823526221381625 / 35184372088832) = 21333 / 8"
    using fl_pos_eval [of 41 "93823526221381625 / 35184372088832" 5863970388836351 "9 / 16" 5863970388836352] by simp
  show ?thesis by (simp only: fmul_def e) (simp add: fl_def r)
qed

lemma fv_47: "fmul 1000 (4425724883813881 / 1125899906842624) = 4321996956849493 / 1099511627776"
proof -
  have e: "(1000 :: rat) * (4425724883813881 / 1125899906842624) = 553215610476735125 / 140737488355328" by simp
  have r: "fl_pos (553215610476735125 / 140737488355328) = 4321996956849493 / 1099511627776"
    using fl_pos_eval [of 41 "553215610476735125 / 140737488355328" 8643993913698986 "21 / 64" 8643993913698986] by simp
  show ?thesis by (simp only: fmul_def e) (simp add: fl_def r)
qed

lemma fv_48: "fmul 1000 (1595013139903021 / 281474976710656) = 45333 / 8"
proof -
  have e: "(1000 :: rat) * (1595013139903021 / 281474976710656) = 199376642487877625 / 35184372088832" by simp
  have r: "fl_pos (199376642487877625 / 35184372088832) = 45333 / 8"
    using fl_pos_eval [of 40 "199376642487877625 / 35184372088832" 6230520077746175 "25 / 32" 6230520077746176] by simp
  show ?thesis by (simp only: fmul_def e) (simp add: fl_def r)
qed

lemma fv_49: "fmul 24000 (3 / 4) = 18000"
  by (simp add: fmul_def fl_numeral)

lemma fv_50: "fmul 24000 (5404319552844595 / 4503599627370496) = 28800"
proof -
  have e: "(24000 :: rat) * (5404319552844595 / 4503599627370496) = 2026619832316723125 / 70368744177664" by simp
  have r: "fl_pos (2026619832316723125 / 70368744177664) = 28800"
    using fl_pos_eval [of 38 "2026619832316723125 / 70368744177664" 7916483719987199 "181 / 256" 7916483719987200] by simp
  show ?thesis by (simp only: fmul_def e) (simp add: fl_def r)
qed

lemma fv_51: "fmul 24000 (5 / 4) = 30000"
  by (simp add: fmul_def fl_numeral)

lemma fv_52: "fsub (6004799503160661 / 9007199254740992) 1 = - (3002399751580331 / 9007199254740992)"
proof -
  have e: "((6004799503160661 / 9007199254740992) :: rat) - 1 = - (3002399751580331 / 9007199254740992)" by simp
  have r: "fl_pos (3002399751580331 / 9007199254740992) = 3002399751580331 / 9007199254740992"
    using fl_pos_eval [of 54 "3002399751580331 / 9007199254740992" 6004799503160662 "0" 6004799503160662] by simp
  show ?thesis by (simp only: fsub_def e) (simp add: fl_def r)
qed

lemma fv_53: "fsub (8691947280825057 / 9007199254740992) 1 = - (315251973915935 / 9007199254740992)"
proof -
  have e: "((8691947280825057 / 9007199254740992) :: rat) - 1 = - (315251973915935 / 9007199254740992)" by simp
  have r: "fl_pos (315251973915935 / 9007199254740992) = 315251973915935 / 9007199254740992"
    using fl_pos_eval [of 57 "315251973915935 / 9007199254740992" 5044031582654960 "0" 5044031582654960] by simp
  show ?thesis by (simp only: fsub_def e) (simp add: fl_def r)
qed

lemma fv_54: "fsub 1 0 = 1"
  by (simp add: fsub_def)

lemma fv_55: "fsub 1 (1 / 4) = 3 / 4"
proof -
  have e: "(1 :: rat) - (1 / 4) = 3 / 4" by simp
  have r: "fl_pos (3 / 4) = 3 / 4"
    using fl_pos_eval [of 53 "3 / 4" 6755399441055744 "0" 6755399441055744] by simp
  show ?thesis by (simp only: fsub_def e) (simp add: fl_def r)
qed

lemma fv_56: "fsub 1 1 = 0"
  by (simp add: fsub_def)

lemma fv_57: "fsub (5404319552844595 / 4503599627370496) 1 = 900719925474099 / 4503599627370496"
proof -
  have e: "((5404319552844595 / 4503599627370496) :: rat) - 1 = 900719925474099 / 4503599627370496" by simp
  have r: "fl_pos (900719925474099 / 4503599627370496) = 900719925474099 / 4503599627370496"
    using fl_pos_eval [of 55 "900719925474099 / 4503599627370496" 7205759403792792 "0" 7205759403792792] by simp
  show ?thesis by (simp only: fsub_def e) (simp add: fl_def r)
qed

lemma fv_58: "fsub (5 / 4) 1 = 1 / 4"
proof -
  have e: "((5 / 4) :: rat) - 1 = 1 / 4" by simp
  have r: "fl_pos (1 / 4) = 1 / 4"
    using fl_pos_eval [of 54 "1 / 4" 4503599627370496 "0" 4503599627370496] by simp
  show ?thesis by (simp only: fsub_def e) (simp add: fl_def r)
qed

lemma fv_59: "fsub 2 0 = 2"
  by (simp add: fsub_def fl_numeral)

lemma fv_60: "fsub (176132966676693 / 70368744177664) 1 = 105764222499029 / 70368744177664"
proof -
  have e: "((176132966676693 / 70368744177664) :: rat) - 1 = 105764222499029 / 70368744177664" by simp
  have r: "fl_pos (105764222499029 / 70368744177664) = 105764222499029 / 70368744177664"
    using fl_pos_eval [of 52 "105764222499029 / 70368744177664" 6768910239937856 "0" 6768910239937856] by simp
  show ?thesis by (simp only: fsub_def e) (simp add: fl_def r)
qed

lemma fv_61: "fsub 3 1 = 2"
  by (simp add: fsub_def fl_numeral)

lemma fv_62: "fsub 4 3 = 1"
  by (simp add: fsub_def)

lemma fv_63: "fsub 5 2 = 3"
  by (simp add: fsub_def fl_numeral)

lemma fv_64: "fsub 6 5 = 1"
  by (simp add: fsub_def)

lemmas fv = fv_1 fv_2 fv_3 fv_4 fv_5 fv_6 fv_7 fv_8 fv_9 fv_10 fv_11 fv_12 fv_13 fv_14 fv_15 fv_16 fv_17 fv_18 fv_19 fv_20 fv_21 fv_22 fv_23 fv_24 fv_25 fv_26 fv_27 fv_28 fv_29 fv_30 fv_31 fv_32 fv_33 fv_34 fv_35 fv_36 fv_37 fv_38 fv_39 fv_40 fv_41 fv_42 fv_43 fv_44 fv_45 fv_46 fv_47 fv_48 fv_49 fv_50 fv_51 fv_52 fv_53 fv_54 fv_55 fv_56 fv_57 fv_58 fv_59 fv_60 fv_61 fv_62 fv_63 fv_64






















lemmas eval_simps = float_of_int_numeral py_round_def round_half_even_def py_int_def Let_def
  fl_quarters

section \<open>Clips\<close>

lemma len_clip_a: "len_ms clip_a = 1000"
  by (simp add: clip_a_def len_ms_def eval_simps fv)

lemma len_clip_b: "len_ms clip_b = 1930"
  by (simp add: clip_b_def len_ms_def eval_simps fv)

lemma len_clip_c: "len_ms clip_c = 1000"
  by (simp add: clip_c_def len_ms_def eval_simps fv)

lemma len_clip_2500: "len_ms clip_2500 = 2500"
  by (simp add: clip_2500_def len_ms_def eval_simps fv)

lemma len_clip_2000: "len_ms clip_2000 = 2000"
  by (simp add: clip_2000_def len_ms_def eval_simps fv)

lemma len_clip_1200: "len_ms clip_1200 = 1200"
  by (simp add: clip_1200_def len_ms_def eval_simps fv)


lemma len_stretched:
  "len_ms \<lparr>frame_count = 48000, frame_rate = 24000\<rparr> = 2000"
  "len_ms \<lparr>frame_count = 63999, frame_rate = 24000\<rparr> = 2667"
  "len_ms \<lparr>frame_count = 24000, frame_rate = 24000\<rparr> = 1000"
  "len_ms \<lparr>frame_count = 48057, frame_rate = 24000\<rparr> = 2002"
  "len_ms \<lparr>frame_count = 94340, frame_rate = 24000\<rparr> = 3931"
  "len_ms \<lparr>frame_count = 135999, frame_rate = 24000\<rparr> = 5667"
  by (simp_all add: len_ms_def eval_simps fv)

lemma stretch_clip_a: "time_stretch_to_duration clip_a 1000 = clip_a"
  by (simp add: time_stretch_to_duration_def len_clip_a eval_simps fv)

lemma stretch_clip_b: "time_stretch_to_duration clip_b 2000 = clip_b"
  by (simp add: time_stretch_to_duration_def len_clip_b eval_simps fv)

lemma stretch_clip_c: "time_stretch_to_duration clip_c 1000 = clip_c"
  by (simp add: time_stretch_to_duration_def len_clip_c eval_simps fv)

lemma clip_fields:
  "frame_count clip_2500 = 60000" "frame_rate clip_2500 = 24000"
  "frame_count clip_2000 = 48000" "frame_rate clip_2000 = 24000"
  "frame_count clip_1200 = 28800" "frame_rate clip_1200 = 24000"
  "frame_count clip_2503 = 60072" "frame_rate clip_2503 = 24000"
  by (simp_all add: clip_2500_def clip_2000_def clip_1200_def clip_2503_def)

lemmas stretch_simps = time_stretch_to_duration_def set_frame_rate_def ratecv_frames_def
  clip_fields eval_simps fv

lemma stretch_clip_2500:
  "time_stretch_to_duration clip_2500 2000 = \<lparr>frame_count = 48000, frame_rate = 24000\<rparr>"
  by (simp add: len_clip_2500 stretch_simps)

lemma stretch_clip_2000:
  "time_stretch_to_duration clip_2000 3000 = \<lparr>frame_count = 63999, frame_rate = 24000\<rparr>"
  by (simp add: len_clip_2000 stretch_simps)

lemma stretch_clip_1200:
  "time_stretch_to_duration clip_1200 1000 = \<lparr>frame_count = 24000, frame_rate = 24000\<rparr>"
  by (simp add: len_clip_1200 stretch_simps)


section \<open>The assembler on examples\<close>

lemma seg_times:
  "start seg_a = 0" "seg_end seg_a = 1" "start seg_b = 1" "seg_end seg_b = 3"
  "start seg_c = 3" "seg_end seg_c = 4" "start seg_tie = 0" "seg_end seg_tie = 2"
  "start seg_s1 = 0" "seg_end seg_s1 = 2" "start seg_s2 = 2" "seg_end seg_s2 = 5"
  "start seg_s3 = 5" "seg_end seg_s3 = 6"
  by (simp_all add: seg_a_def seg_b_def seg_c_def seg_tie_def seg_s1_def seg_s2_def seg_s3_def)

lemma arrange_abc:
  "arrange 0 [(seg_a, clip_a), (seg_b, clip_b), (seg_c, clip_c)] =
     [(seg_a\<lparr>actual_start := Some 0, actual_end := Some 1\<rparr>, clip_a),
      (seg_b\<lparr>actual_start := Some 1,
             actual_end := Some (412360840881111 / 140737488355328)\<rparr>, clip_b),
      (seg_c\<lparr>actual_start := Some (6597773454097777 / 2251799813685248),
             actual_end := Some (8849573267783025 / 2251799813685248)\<rparr>, clip_c)]"
  by (simp add: seg_times fv eval_simps stretch_clip_a stretch_clip_b stretch_clip_c
      len_clip_a len_clip_b len_clip_c)

lemma sort_cab:
  "sort_key (\<lambda>sp. start (fst sp)) [(seg_c, clip_c), (seg_a, clip_a), (seg_b, clip_b)] =
     [(seg_a, clip_a), (seg_b, clip_b), (seg_c, clip_c)]"
  by (simp add: seg_times)

lemma combine_abc: "combine [clip_a, clip_b, clip_c] = \<lparr>frame_count = 94340, frame_rate = 24000\<rparr>"
  by (simp add: combine_def append_audio_def set_frame_rate_def clip_a_def clip_b_def
      clip_c_def Let_def)

lemma assemble_cab:
  "assemble [(seg_c, clip_c), (seg_a, clip_a), (seg_b, clip_b)] =
     ([seg_a\<lparr>actual_start := Some 0, actual_end := Some 1\<rparr>,
       seg_b\<lparr>actual_start := Some 1,
             actual_end := Some (412360840881111 / 140737488355328)\<rparr>,
       seg_c\<lparr>actual_start := Some (6597773454097777 / 2251799813685248),
             actual_end := Some (8849573267783025 / 2251799813685248)\<rparr>],
      \<lparr>frame_count = 94340, frame_rate = 24000\<rparr>,
      4425912533798355 / 1125899906842624)"
  by (simp only: assemble_def Let_def sort_cab arrange_abc)
    (simp add: combine_abc len_stretched float_of_int_numeral fv)

text \<open>
  Three clips of 1000, 1930 and 1000 milliseconds, none of them stretched. The second
  segment ends at \<open>1.0 + 1.93\<close>, which is 2.9299999999999997, and the third starts at
  \<open>2930 / 1000.0\<close>, which is 2.93. The clips have 94340 frames together, 3931
  milliseconds, and their lengths add up to 3930 milliseconds.
\<close>

theorem assemble_adjacent_times_differ:
  "actual_end (fst (assemble [(seg_c, clip_c), (seg_a, clip_a), (seg_b, clip_b)]) ! 1) =
     Some (412360840881111 / 140737488355328) \<and>
   actual_start (fst (assemble [(seg_c, clip_c), (seg_a, clip_a), (seg_b, clip_b)]) ! 2) =
     Some (6597773454097777 / 2251799813685248) \<and>
   (412360840881111 / 140737488355328 :: rat) \<noteq> 6597773454097777 / 2251799813685248 \<and>
   len_ms (fst (snd (assemble [(seg_c, clip_c), (seg_a, clip_a), (seg_b, clip_b)]))) = 3931 \<and>
   len_ms clip_a + len_ms clip_b + len_ms clip_c = 3930"
  by (simp add: assemble_cab len_stretched len_clip_a len_clip_b len_clip_c)

theorem assemble_sequence_witness:
  "actual_start (fst (assemble [(seg_c, clip_c), (seg_a, clip_a), (seg_b, clip_b)]) ! 2) =
     Some (fdiv 2930 1000) \<and>
   actual_end (fst (assemble [(seg_c, clip_c), (seg_a, clip_a), (seg_b, clip_b)]) ! 2) =
     Some (fadd (fdiv 2930 1000) (fdiv 1000 1000)) \<and>
   fdiv 2930 1000 \<le> fadd (fdiv 2930 1000) (fdiv 1000 1000) \<and>
   frame_count (fst (snd (assemble [(seg_c, clip_c), (seg_a, clip_a), (seg_b, clip_b)]))) =
     24010 + 46330 + 24000"
proof -
  define L where "L =
     [(seg_a\<lparr>actual_start := Some 0, actual_end := Some 1\<rparr>, clip_a),
      (seg_b\<lparr>actual_start := Some 1,
             actual_end := Some (412360840881111 / 140737488355328)\<rparr>, clip_b),
      (seg_c\<lparr>actual_start := Some (6597773454097777 / 2251799813685248),
             actual_end := Some (8849573267783025 / 2251799813685248)\<rparr>, clip_c)]"
  have L: "L = arrange 0 (sort_key (\<lambda>sp. start (fst sp))
       [(seg_c, clip_c), (seg_a, clip_a), (seg_b, clip_b)])"
    by (simp only: L_def sort_cab arrange_abc)
  have r: "\<forall>sp \<in> set [(seg_c, clip_c), (seg_a, clip_a), (seg_b, clip_b)].
      frame_rate (snd sp) = 24000"
    by (simp add: clip_a_def clip_b_def clip_c_def)
  note t = assemble_sequence [OF L refl, of 24000]
  from t have A: "assemble [(seg_c, clip_c), (seg_a, clip_a), (seg_b, clip_b)] =
      (map fst L, combine (map snd L), fdiv (float_of_int (len_ms (combine (map snd L)))) 1000)"
    by blast
  have two: "2 < length L" by (simp add: L_def)
  from t two have B:
    "actual_start (fst (L ! 2)) =
       Some (fdiv (float_of_int (sum_list (map (\<lambda>sp. len_ms (snd sp)) (take 2 L)))) 1000)"
    "actual_end (fst (L ! 2)) =
       Some (fadd (fdiv (float_of_int (sum_list (map (\<lambda>sp. len_ms (snd sp)) (take 2 L)))) 1000)
         (fdiv (float_of_int (len_ms (snd (L ! 2)))) 1000))"
    "the (actual_start (fst (L ! 2))) \<le> the (actual_end (fst (L ! 2)))"
    by blast+
  from t r have C: "frame_count (combine (map snd L)) =
      sum_list (map (\<lambda>sp. frame_count (snd sp)) L)"
    by blast
  have e: "sum_list (map (\<lambda>sp. len_ms (snd sp)) (take 2 L)) = 2930" "len_ms (snd (L ! 2)) = 1000"
    "sum_list (map (\<lambda>sp. frame_count (snd sp)) L) = 24010 + 46330 + 24000"
    "fst (assemble [(seg_c, clip_c), (seg_a, clip_a), (seg_b, clip_b)]) ! 2 = fst (L ! 2)"
    unfolding A
    by (simp_all add: L_def len_clip_a len_clip_b len_clip_c)
      (simp add: clip_a_def clip_b_def clip_c_def)
  have f: "float_of_int 2930 = 2930" "float_of_int 1000 = 1000"
    by (simp_all add: float_of_int_numeral)
  from B(3) have "fdiv 2930 1000 \<le> fadd (fdiv 2930 1000) (fdiv 1000 1000)"
    unfolding B(1,2) e f option.sel .
  moreover have "frame_count (fst (snd (assemble [(seg_c, clip_c), (seg_a, clip_a), (seg_b, clip_b)])))
      = 24010 + 46330 + 24000"
    unfolding A using C e(3) by simp
  ultimately show ?thesis
    using B(1,2) unfolding e f by simp
qed

section \<open>Completion order on examples\<close>




section \<open>The normalizer\<close>






section \<open>The scenario\<close>













end
